theory Spec2Isabelle
  imports Main "HOL-Library.Word"
begin

unbundle bit_operations_syntax

section \<open>The PCM core of alsa-lib (src/pcm/pcm.c)\<close>

text \<open>
  A shallow embedding of the functions of \<^verbatim>\<open>pcm.c\<close>. A C call either returns a value,
  stops in a failed \<^verbatim>\<open>assert\<close>, or runs into behaviour the C standard leaves undefined
  (a division by zero, an overflow of a signed product).
\<close>

datatype 'a outcome = Returned 'a | Aborted | Undefined

subsection \<open>Enumerations\<close>

datatype snd_pcm_stream = SND_PCM_STREAM_PLAYBACK | SND_PCM_STREAM_CAPTURE

datatype snd_pcm_start = SND_PCM_START_EXPLICIT | SND_PCM_START_DATA

datatype mode_flag = SND_PCM_NONBLOCK | SND_PCM_ASYNC

text \<open>
  The states the code and the specification name. The header that numbers them is not
  part of the sources; the only order the code relies on is
  \<^verbatim>\<open>state <= SND_PCM_STATE_PREPARED\<close>, see \<open>le_PREPARED\<close> below.
\<close>

datatype snd_pcm_state_t =
    SND_PCM_STATE_OPEN
  | SND_PCM_STATE_SETUP
  | SND_PCM_STATE_PREPARED
  | SND_PCM_STATE_RUNNING
  | SND_PCM_STATE_XRUN
  | SND_PCM_STATE_PAUSED
  | SND_PCM_STATE_DRAINING
  | SND_PCM_STATE_DISCONNECTED

text \<open>
  Modelled from the spec: the numbering of \<^verbatim>\<open>snd_pcm_state_t\<close> (declared in a header
  that is not part of the sources). The specification lists the states in the order
  OPEN, SETUP, PREPARED, RUNNING, ...; so the states at most PREPARED are the first three.
\<close>

fun le_PREPARED :: "snd_pcm_state_t \<Rightarrow> bool" where
  "le_PREPARED SND_PCM_STATE_OPEN = True"
| "le_PREPARED SND_PCM_STATE_SETUP = True"
| "le_PREPARED SND_PCM_STATE_PREPARED = True"
| "le_PREPARED _ = False"

subsection \<open>Error numbers\<close>

text \<open>The values of \<^verbatim>\<open>errno.h\<close> on Linux.\<close>

definition EAGAIN :: int where "EAGAIN = 11"
definition EPIPE :: int where "EPIPE = 32"
definition EBADFD :: int where "EBADFD = 77"

subsection \<open>Channel areas\<close>

text \<open>
  \<^verbatim>\<open>snd_pcm_channel_area_t\<close>: the base address (0 is the null pointer), the offset in
  bits of the first sample and the distance in bits between two samples. The fields
  \<open>first\<close> and \<open>step\<close> are C's \<^verbatim>\<open>unsigned int\<close>; they are natural numbers here, and
  every value is taken to stay below \<open>2 ^ 32\<close>.
\<close>

record snd_pcm_channel_area_t =
  addr :: nat
  first :: nat
  step :: nat

subsection \<open>The endpoint and its backend\<close>

text \<open>
  The backend behind \<^verbatim>\<open>op_arg\<close> and \<^verbatim>\<open>fast_op_arg\<close> is a value of type \<open>'b\<close>; an
  operation of a table takes it and returns its result with the backend after the call.
  An integer result below 0 is an error, as in C.
\<close>

record 'b snd_pcm_ops_t =
  close :: "'b \<Rightarrow> int \<times> 'b"
  hw_free :: "'b \<Rightarrow> int \<times> 'b"
  munmap :: "'b \<Rightarrow> int \<times> 'b"

record 'b snd_pcm_fast_ops_t =
  state :: "'b \<Rightarrow> snd_pcm_state_t \<times> 'b"
  prepare :: "'b \<Rightarrow> int \<times> 'b"
  reset :: "'b \<Rightarrow> int \<times> 'b"
  start :: "'b \<Rightarrow> int \<times> 'b"
  drop_op :: "'b \<Rightarrow> int \<times> 'b"
  drain :: "'b \<Rightarrow> int \<times> 'b"
  pause :: "int \<Rightarrow> 'b \<Rightarrow> int \<times> 'b"
  rewind :: "nat \<Rightarrow> 'b \<Rightarrow> int \<times> 'b"
  avail_update :: "'b \<Rightarrow> int \<times> 'b"

text \<open>
  \<^verbatim>\<open>struct _snd_pcm\<close>, with the fields the functions below read or write. The field
  \<open>poll_fd\<close> is the descriptor, given as what \<^verbatim>\<open>poll(2)\<close> does on it: the number of
  ready descriptors, or \<^verbatim>\<open>-errno\<close> when the call fails.
\<close>

record 'b snd_pcm_t =
  name :: "string option"
  stream :: snd_pcm_stream
  mode :: "mode_flag set"
  setup_flag :: bool
  frame_bits :: nat
  xfer_align :: nat
  start_mode :: snd_pcm_start
  mmap_channels :: "snd_pcm_channel_area_t list option"
  ops :: "'b snd_pcm_ops_t"
  fast_ops :: "'b snd_pcm_fast_ops_t"
  poll_fd :: "'b \<Rightarrow> int \<times> 'b"

text \<open>
  The calls that leave the core are logged, in order, next to the backend: a call through
  a table with its result, the state the backend reports, a call of the transfer callback
  (offset, frames, result), an error the transfer loop sets on its way out, and the
  release of the endpoint object. The log is how the theorems speak about the order of
  calls and about the frames a call moved; no function reads it.
\<close>

datatype callee =
    Op_close | Op_hw_free | Op_munmap
  | Op_prepare | Op_reset | Op_start | Op_drop | Op_drain
  | Op_pause int | Op_rewind nat | Op_avail_update | Sys_poll

datatype event =
    Call callee int
  | State_read snd_pcm_state_t
  | Xfer nat nat int
  | Raise int
  | Free

type_synonym 'b world = "'b \<times> event list"

definition call_op :: "('b \<Rightarrow> int \<times> 'b) \<Rightarrow> callee \<Rightarrow> 'b world \<Rightarrow> int \<times> 'b world" where
  "call_op f c w = (case f (fst w) of (r, b') \<Rightarrow> (r, (b', snd w @ [Call c r])))"

definition log_event :: "event \<Rightarrow> 'b world \<Rightarrow> 'b world" where
  "log_event e w = (fst w, snd w @ [e])"

text \<open>What is left of a call that did not return, at another result type.\<close>

fun propagate :: "'a outcome \<Rightarrow> 'c outcome" where
  "propagate Undefined = Undefined"
| "propagate _ = Aborted"

subsection \<open>State and transitions (pcm.c, lines 258 to 375)\<close>

definition snd_pcm_state :: "'b snd_pcm_t \<Rightarrow> 'b world \<Rightarrow> snd_pcm_state_t \<times> 'b world" where
  "snd_pcm_state pcm w =
     (case state (fast_ops pcm) (fst w) of (s, b') \<Rightarrow> (s, (b', snd w @ [State_read s])))"

definition snd_pcm_prepare :: "'b snd_pcm_t \<Rightarrow> 'b world \<Rightarrow> int outcome \<times> 'b world" where
  "snd_pcm_prepare pcm w =
     (if \<not> setup_flag pcm then (Aborted, w)
      else case call_op (prepare (fast_ops pcm)) Op_prepare w of (r, w') \<Rightarrow> (Returned r, w'))"

definition snd_pcm_reset :: "'b snd_pcm_t \<Rightarrow> 'b world \<Rightarrow> int outcome \<times> 'b world" where
  "snd_pcm_reset pcm w =
     (if \<not> setup_flag pcm then (Aborted, w)
      else case call_op (reset (fast_ops pcm)) Op_reset w of (r, w') \<Rightarrow> (Returned r, w'))"

definition snd_pcm_start :: "'b snd_pcm_t \<Rightarrow> 'b world \<Rightarrow> int outcome \<times> 'b world" where
  "snd_pcm_start pcm w =
     (if \<not> setup_flag pcm then (Aborted, w)
      else case call_op (start (fast_ops pcm)) Op_start w of (r, w') \<Rightarrow> (Returned r, w'))"

definition snd_pcm_drop :: "'b snd_pcm_t \<Rightarrow> 'b world \<Rightarrow> int outcome \<times> 'b world" where
  "snd_pcm_drop pcm w =
     (if \<not> setup_flag pcm then (Aborted, w)
      else case call_op (drop_op (fast_ops pcm)) Op_drop w of (r, w') \<Rightarrow> (Returned r, w'))"

definition snd_pcm_drain :: "'b snd_pcm_t \<Rightarrow> 'b world \<Rightarrow> int outcome \<times> 'b world" where
  "snd_pcm_drain pcm w =
     (if \<not> setup_flag pcm then (Aborted, w)
      else case call_op (drain (fast_ops pcm)) Op_drain w of (r, w') \<Rightarrow> (Returned r, w'))"

definition snd_pcm_pause :: "'b snd_pcm_t \<Rightarrow> int \<Rightarrow> 'b world \<Rightarrow> int outcome \<times> 'b world" where
  "snd_pcm_pause pcm enable w =
     (if \<not> setup_flag pcm then (Aborted, w)
      else case call_op (pause (fast_ops pcm) enable) (Op_pause enable) w of
             (r, w') \<Rightarrow> (Returned r, w'))"

definition snd_pcm_rewind :: "'b snd_pcm_t \<Rightarrow> nat \<Rightarrow> 'b world \<Rightarrow> int outcome \<times> 'b world" where
  "snd_pcm_rewind pcm frames w =
     (if \<not> setup_flag pcm then (Aborted, w)
      else if \<not> frames > 0 then (Aborted, w)
      else case call_op (rewind (fast_ops pcm) frames) (Op_rewind frames) w of
             (r, w') \<Rightarrow> (Returned r, w'))"

subsection \<open>Configuration and close (pcm.c, lines 97 to 215)\<close>

text \<open>
  Modelled from the spec: \<^verbatim>\<open>snd_pcm_munmap\<close> (its file is not part of the sources). The
  specification puts \<open>munmap\<close> in the slow table and has the mapping released on the
  \<open>hw_free\<close> path: the call goes to the backend, and a success leaves the endpoint
  without mapped channels.
\<close>

definition snd_pcm_munmap :: "'b snd_pcm_t \<Rightarrow> 'b world \<Rightarrow> int \<times> 'b snd_pcm_t \<times> 'b world" where
  "snd_pcm_munmap pcm w =
     (case call_op (munmap (ops pcm)) Op_munmap w of
        (err, w') \<Rightarrow> if err < 0 then (err, pcm, w') else (err, pcm\<lparr>mmap_channels := None\<rparr>, w'))"

definition snd_pcm_hw_free ::
  "'b snd_pcm_t \<Rightarrow> 'b world \<Rightarrow> int outcome \<times> 'b snd_pcm_t \<times> 'b world" where
  "snd_pcm_hw_free pcm w =
     (if \<not> setup_flag pcm then (Aborted, pcm, w)
      else case snd_pcm_state pcm w of (s, w1) \<Rightarrow>
        if \<not> le_PREPARED s then (Aborted, pcm, w1)
        else case (if mmap_channels pcm \<noteq> None then snd_pcm_munmap pcm w1 else (0, pcm, w1)) of
          (err, pcm1, w2) \<Rightarrow>
            if mmap_channels pcm \<noteq> None \<and> err < 0 then (Returned err, pcm1, w2)
            else case call_op (hw_free (ops pcm1)) Op_hw_free w2 of
              (err', w3) \<Rightarrow> (Returned err', pcm1\<lparr>setup_flag := False\<rparr>, w3))"

text \<open>
  \<^verbatim>\<open>_snd_pcm_hw_params\<close> is defined in a file that is not part of the sources: it is the
  parameter \<open>hw_params_impl\<close> of \<open>snd_pcm_hw_params\<close>, any function that returns an error
  code with the endpoint and the backend it leaves.
\<close>

definition snd_pcm_hw_params ::
  "('b snd_pcm_t \<Rightarrow> 'b world \<Rightarrow> int \<times> 'b snd_pcm_t \<times> 'b world) \<Rightarrow>
   'b snd_pcm_t \<Rightarrow> 'b world \<Rightarrow> int outcome \<times> 'b snd_pcm_t \<times> 'b world" where
  "snd_pcm_hw_params hw_params_impl pcm w =
     (case hw_params_impl pcm w of
        (err, pcm1, w1) \<Rightarrow>
          if err \<ge> 0 then (case snd_pcm_prepare pcm1 w1 of (r, w2) \<Rightarrow> (r, pcm1, w2))
          else (Returned err, pcm1, w1))"

text \<open>
  \<^verbatim>\<open>snd_pcm_close\<close>. The second component of the result is the endpoint object after
  the call: \<open>None\<close> once \<^verbatim>\<open>free(pcm)\<close> has run. The local variable \<^verbatim>\<open>ret\<close> collects the
  errors of \<^verbatim>\<open>snd_pcm_hw_free\<close> and of the backend's close; the function returns the
  constant 0.
\<close>

definition snd_pcm_close ::
  "'b snd_pcm_t \<Rightarrow> 'b world \<Rightarrow> int outcome \<times> 'b snd_pcm_t option \<times> 'b world" where
  "snd_pcm_close pcm w =
     (case
        (if setup_flag pcm then
           (case (if SND_PCM_NONBLOCK \<in> mode pcm \<or> stream pcm = SND_PCM_STREAM_CAPTURE
                  then snd_pcm_drop pcm w
                  else snd_pcm_drain pcm w) of
              (Returned _, w1) \<Rightarrow>
                (case snd_pcm_hw_free pcm w1 of
                   (Returned err, pcm1, w2) \<Rightarrow> (Returned (if err < 0 then err else 0), pcm1, w2)
                 | (other, pcm1, w2) \<Rightarrow> (propagate other, pcm1, w2))
            | (other, w1) \<Rightarrow> (propagate other, pcm, w1))
         else (Returned (0::int), pcm, w)) of
        (Returned ret, pcm1, w2) \<Rightarrow>
          (case call_op (close (ops pcm1)) Op_close w2 of
             (err, w3) \<Rightarrow>
               (let ret' = (if err < 0 then err else ret);
                    pcm2 = pcm1\<lparr>setup_flag := False, name := None\<rparr>
                in (Returned 0, None, log_event Free w3)))
      | (other, pcm1, w2) \<Rightarrow> (propagate other, Some pcm1, w2))"

subsection \<open>Names of the sample formats (pcm.c, lines 550 to 691)\<close>

text \<open>
  The enumerators \<^verbatim>\<open>SND_PCM_FORMAT_*\<close> that the table \<^verbatim>\<open>snd_pcm_format_names\<close> names, in
  the order of the source. Their numbers, \<^verbatim>\<open>SND_PCM_FORMAT_LAST\<close> and the value of
  \<^verbatim>\<open>SND_PCM_FORMAT_UNKNOWN\<close> are declared in a header that is not part of the sources:
  the numbering is the parameter \<open>num\<close> of the functions below, the last number the
  parameter \<open>last_format\<close>, and an unknown format is a value of its own.
\<close>

datatype format_enum =
    S8 | U8 | S16_LE | S16_BE | U16_LE | U16_BE | S24_LE | S24_BE | U24_LE | U24_BE
  | S32_LE | S32_BE | U32_LE | U32_BE | FLOAT_LE | FLOAT_BE | FLOAT64_LE | FLOAT64_BE
  | IEC958_SUBFRAME_LE | IEC958_SUBFRAME_BE | MU_LAW | A_LAW | IMA_ADPCM | MPEG | GSM
  | SPECIAL

datatype snd_pcm_format_t = SND_PCM_FORMAT nat | SND_PCM_FORMAT_UNKNOWN

text \<open>The initialisers of the table: \<^verbatim>\<open>FORMAT(v)\<close> is \<^verbatim>\<open>[SND_PCM_FORMAT_v] = "v"\<close>.\<close>

definition format_initialisers :: "(format_enum \<times> string) list" where
  "format_initialisers =
     [(S8, ''S8''), (U8, ''U8''), (S16_LE, ''S16_LE''), (S16_BE, ''S16_BE''),
      (U16_LE, ''U16_LE''), (U16_BE, ''U16_BE''), (S24_LE, ''S24_LE''), (S24_BE, ''S24_BE''),
      (U24_LE, ''U24_LE''), (U24_BE, ''U24_BE''), (S32_LE, ''S32_LE''), (S32_BE, ''S32_BE''),
      (U32_LE, ''U32_LE''), (U32_BE, ''U32_BE''), (FLOAT_LE, ''FLOAT_LE''),
      (FLOAT_BE, ''FLOAT_BE''), (FLOAT64_LE, ''FLOAT64_LE''), (FLOAT64_BE, ''FLOAT64_BE''),
      (IEC958_SUBFRAME_LE, ''IEC958_SUBFRAME_LE''), (IEC958_SUBFRAME_BE, ''IEC958_SUBFRAME_BE''),
      (MU_LAW, ''MU_LAW''), (A_LAW, ''A_LAW''), (IMA_ADPCM, ''IMA_ADPCM''), (MPEG, ''MPEG''),
      (GSM, ''GSM''), (SPECIAL, ''SPECIAL'')]"

text \<open>
  The array: the entry at index \<open>i\<close> is the name of the enumerator numbered \<open>i\<close>, and the
  null pointer (\<open>None\<close>) where no initialiser names the index.
\<close>

definition snd_pcm_format_names :: "(format_enum \<Rightarrow> nat) \<Rightarrow> nat \<Rightarrow> string option" where
  "snd_pcm_format_names num = map_of (map (\<lambda>(f, s). (num f, s)) format_initialisers)"

definition snd_pcm_format_name ::
  "(format_enum \<Rightarrow> nat) \<Rightarrow> nat \<Rightarrow> nat \<Rightarrow> string option outcome" where
  "snd_pcm_format_name num last_format format =
     (if \<not> format \<le> last_format then Aborted else Returned (snd_pcm_format_names num format))"

text \<open>
  \<^verbatim>\<open>tolower\<close> and \<^verbatim>\<open>strcasecmp\<close> of the C library, in the C locale. A C string ends at
  its first NUL character, so the comparison stops there.
\<close>

definition tolower :: "char \<Rightarrow> char" where
  "tolower c =
     (case map_of (zip ''ABCDEFGHIJKLMNOPQRSTUVWXYZ'' ''abcdefghijklmnopqrstuvwxyz'') c of
        Some l \<Rightarrow> l
      | None \<Rightarrow> c)"

fun strcasecmp :: "string \<Rightarrow> string \<Rightarrow> int" where
  "strcasecmp [] [] = 0"
| "strcasecmp [] (y # ys) = - int (of_char (tolower y))"
| "strcasecmp (x # xs) [] = int (of_char (tolower x))"
| "strcasecmp (x # xs) (y # ys) =
     (if tolower x \<noteq> tolower y then int (of_char (tolower x)) - int (of_char (tolower y))
      else if x = CHR 0x00 then 0
      else strcasecmp xs ys)"

text \<open>
  \<^verbatim>\<open>snd_pcm_format_value\<close>: the loop over \<open>format = 0, ..., last_format\<close> returns the first
  format whose table entry is not null and compares equal to \<open>name\<close>.
\<close>

definition snd_pcm_format_value ::
  "(format_enum \<Rightarrow> nat) \<Rightarrow> nat \<Rightarrow> string \<Rightarrow> snd_pcm_format_t" where
  "snd_pcm_format_value num last_format name' =
     (case find (\<lambda>format. case snd_pcm_format_names num format of
                             None \<Rightarrow> False
                           | Some s \<Rightarrow> strcasecmp name' s = 0) [0..<Suc last_format] of
        Some format \<Rightarrow> SND_PCM_FORMAT format
      | None \<Rightarrow> SND_PCM_FORMAT_UNKNOWN)"

subsection \<open>Bytes and frames (pcm.c, lines 862 to 880)\<close>

text \<open>
  The arguments and results are C's \<^verbatim>\<open>long\<close> (\<^verbatim>\<open>ssize_t\<close>, \<^verbatim>\<open>snd_pcm_sframes_t\<close>), taken
  as 64 bits wide. The product is computed before the division: a product out of the
  range of \<^verbatim>\<open>long\<close> and a division by zero are undefined. C's division truncates towards
  zero.
\<close>

definition in_long :: "int \<Rightarrow> bool" where
  "in_long x = (- (2 ^ 63) \<le> x \<and> x < 2 ^ 63)"

definition c_div :: "int \<Rightarrow> int \<Rightarrow> int" where
  "c_div a b = (if (a < 0) = (b < 0) then \<bar>a\<bar> div \<bar>b\<bar> else - (\<bar>a\<bar> div \<bar>b\<bar>))"

definition snd_pcm_bytes_to_frames :: "'b snd_pcm_t \<Rightarrow> int \<Rightarrow> int outcome" where
  "snd_pcm_bytes_to_frames pcm bytes =
     (if \<not> setup_flag pcm then Aborted
      else if \<not> in_long (bytes * 8) \<or> frame_bits pcm = 0 then Undefined
      else Returned (c_div (bytes * 8) (int (frame_bits pcm))))"

definition snd_pcm_frames_to_bytes :: "'b snd_pcm_t \<Rightarrow> int \<Rightarrow> int outcome" where
  "snd_pcm_frames_to_bytes pcm frames =
     (if \<not> setup_flag pcm then Aborted
      else if \<not> in_long (frames * int (frame_bits pcm)) then Undefined
      else Returned (c_div (frames * int (frame_bits pcm)) 8))"

text \<open>One call after another: the second runs on what the first returned.\<close>

fun and_then :: "'a outcome \<Rightarrow> ('a \<Rightarrow> 'c outcome) \<Rightarrow> 'c outcome" where
  "and_then (Returned x) f = f x"
| "and_then Aborted f = Aborted"
| "and_then Undefined f = Undefined"

subsection \<open>The transfer loops (pcm.c, lines 1063 to 1087 and 1446 to 1611)\<close>

text \<open>
  \<^verbatim>\<open>snd_pcm_wait\<close> polls the descriptor of the endpoint: \<^verbatim>\<open>-errno\<close> when \<^verbatim>\<open>poll\<close> fails,
  0 otherwise. Its assertion holds for every endpoint: \<^verbatim>\<open>snd_pcm_poll_descriptors\<close>
  (lines 501 to 509) returns the constant 1.
\<close>

definition snd_pcm_wait :: "'b snd_pcm_t \<Rightarrow> int \<Rightarrow> 'b world \<Rightarrow> int \<times> 'b world" where
  "snd_pcm_wait pcm timeout w =
     (case call_op (poll_fd pcm) Sys_poll w of (err, w') \<Rightarrow> (if err < 0 then err else 0, w'))"

definition snd_pcm_avail_update :: "'b snd_pcm_t \<Rightarrow> 'b world \<Rightarrow> int \<times> 'b world" where
  "snd_pcm_avail_update pcm w = call_op (avail_update (fast_ops pcm)) Op_avail_update w"

text \<open>
  The widths of C's integers, as the loops meet them. The frame counts \<^verbatim>\<open>size\<close>,
  \<^verbatim>\<open>offset\<close>, \<^verbatim>\<open>xfer\<close> and \<^verbatim>\<open>frames\<close> are \<^verbatim>\<open>snd_pcm_uframes_t\<close>, an \<^verbatim>\<open>unsigned long\<close>
  of 64 bits: natural numbers below \<open>2 ^ 64\<close>, and a sum wraps. The results of
  \<open>avail_update\<close> and of the transfer callback, and the result of the loops themselves,
  are \<^verbatim>\<open>snd_pcm_sframes_t\<close>, a \<^verbatim>\<open>long\<close> of 64 bits. The local variable \<^verbatim>\<open>err\<close> is an
  \<^verbatim>\<open>int\<close> of 32 bits: \<open>c_int\<close> is the conversion that stores a \<^verbatim>\<open>long\<close> there, and
  \<open>c_long\<close> the conversion of the \<^verbatim>\<open>unsigned long\<close> of the \<^verbatim>\<open>return\<close> statement to the
  result type (both keep the low bits, as the compilers of the library do).
\<close>

definition c_int :: "int \<Rightarrow> int" where
  "c_int x = (x + 2 ^ 31) mod 2 ^ 32 - 2 ^ 31"

definition c_long :: "int \<Rightarrow> int" where
  "c_long x = (x + 2 ^ 63) mod 2 ^ 64 - 2 ^ 63"

definition c_ulong :: "nat \<Rightarrow> nat" where
  "c_ulong x = x mod 2 ^ 64"

text \<open>
  The callback \<^verbatim>\<open>snd_pcm_xfer_areas_func_t\<close>: the areas, the offset and the number of
  frames, on the backend; its result (a \<^verbatim>\<open>long\<close>) is the number of frames it moved, or
  an error. The log keeps the result as the callback returned it.
\<close>

type_synonym 'b xfer_func = "snd_pcm_channel_area_t list \<Rightarrow> nat \<Rightarrow> nat \<Rightarrow> 'b \<Rightarrow> int \<times> 'b"

definition call_xfer ::
  "'b xfer_func \<Rightarrow> snd_pcm_channel_area_t list \<Rightarrow> nat \<Rightarrow> nat \<Rightarrow> 'b world \<Rightarrow> int \<times> 'b world" where
  "call_xfer func areas offset frames w =
     (case func areas offset frames (fst w) of
        (r, b') \<Rightarrow> (r, (b', snd w @ [Xfer offset frames r])))"

text \<open>
  One pass through the body of the \<^verbatim>\<open>while (size > 0)\<close> loop ends the call, at the label
  \<^verbatim>\<open>_end\<close> or in a failed assertion, or goes round again with new values of the local
  variables \<^verbatim>\<open>state\<close>, \<^verbatim>\<open>offset\<close>, \<^verbatim>\<open>size\<close>, \<^verbatim>\<open>xfer\<close> and \<^verbatim>\<open>err\<close>.
\<close>

datatype 'b pass =
    Done "int outcome \<times> 'b world"
  | Again snd_pcm_state_t nat nat nat int "'b world"

text \<open>
  The label \<^verbatim>\<open>_end\<close>: \<^verbatim>\<open>return xfer > 0 ? xfer : err\<close>. The conditional expression is
  an \<^verbatim>\<open>unsigned long\<close>, converted to the \<^verbatim>\<open>long\<close> the function returns: the \<^verbatim>\<open>int\<close> in
  \<^verbatim>\<open>err\<close> comes back as it was, and \<^verbatim>\<open>xfer\<close> as \<open>c_long xfer\<close>. \<open>fail_end\<close> is the same
  exit taken with an error that the loop has just set; the error goes to the log.
\<close>

definition at_end :: "nat \<Rightarrow> int \<Rightarrow> 'b world \<Rightarrow> 'b pass" where
  "at_end xfer err w = Done (Returned (if xfer > 0 then c_long (int xfer) else err), w)"

definition fail_end :: "nat \<Rightarrow> int \<Rightarrow> 'b world \<Rightarrow> 'b pass" where
  "fail_end xfer err w = at_end xfer err (log_event (Raise err) w)"

text \<open>
  The test that sends a call to wait (lines 1567 to 1569, and 1490 to 1492 for reads):
  nothing is available, or less than \<^verbatim>\<open>xfer_align\<close> is available to a transfer of
  at least \<^verbatim>\<open>xfer_align\<close> frames.
\<close>

definition would_block :: "nat \<Rightarrow> nat \<Rightarrow> int \<Rightarrow> bool" where
  "would_block align sz avail \<longleftrightarrow> avail = 0 \<or> (sz \<ge> align \<and> nat avail < align)"

text \<open>
  The frames of one transfer (lines 1582 to 1586, and 1505 to 1509 for reads): \<^verbatim>\<open>avail\<close>
  is rounded down to a multiple of \<^verbatim>\<open>xfer_align\<close> when it is larger, and the transfer
  takes \<^verbatim>\<open>size\<close> frames or, when that is more than \<^verbatim>\<open>avail\<close>, \<^verbatim>\<open>avail\<close> frames.
\<close>

definition xfer_frames :: "nat \<Rightarrow> nat \<Rightarrow> nat \<Rightarrow> nat" where
  "xfer_frames align avail sz =
     (let avail' = (if avail > align then avail - avail mod align else avail)
      in if sz > avail' then avail' else sz)"

text \<open>
  The second half of the loop body of \<^verbatim>\<open>snd_pcm_write_areas\<close> (lines 1582 to 1607):
  the transfer of the frames that are available, and the start of a prepared stream
  after it. The remainder \<^verbatim>\<open>avail % xfer_align\<close> is undefined when \<^verbatim>\<open>xfer_align\<close> is
  0, and the two assertions stop the call. The result of the callback is stored in
  \<^verbatim>\<open>err\<close>: the tests that follow read \<open>c_int\<close> of it.
\<close>

definition write_xfer ::
  "'b snd_pcm_t \<Rightarrow> snd_pcm_channel_area_t list \<Rightarrow> 'b xfer_func \<Rightarrow> snd_pcm_state_t \<Rightarrow>
   nat \<Rightarrow> nat \<Rightarrow> nat \<Rightarrow> int \<Rightarrow> 'b world \<Rightarrow> 'b pass" where
  "write_xfer pcm areas func st offset sz xfer avail w1 =
     (if nat avail > xfer_align pcm \<and> xfer_align pcm = 0 then Done (Undefined, w1)
      else
        (let frames = xfer_frames (xfer_align pcm) (nat avail) sz
         in if \<not> frames \<noteq> 0 then Done (Aborted, w1)
            else case call_xfer func areas offset frames w1 of (r, w2) \<Rightarrow>
              if c_int r < 0 then fail_end xfer (c_int r) w2
              else if \<not> nat (c_int r) = frames then Done (Aborted, w2)
              else if st = SND_PCM_STATE_PREPARED \<and> start_mode pcm = SND_PCM_START_DATA then
                (case snd_pcm_start pcm w2 of
                   (Returned e2, w3) \<Rightarrow>
                     if e2 < 0 then fail_end (xfer + frames) e2 w3
                     else Again st (c_ulong (offset + frames)) (sz - frames) (xfer + frames) e2 w3
                 | (other, w3) \<Rightarrow> Done (propagate other, w3))
              else Again st (c_ulong (offset + frames)) (sz - frames) (xfer + frames) (c_int r) w2))"

text \<open>
  The body of the loop of \<^verbatim>\<open>snd_pcm_write_areas\<close> (lines 1553 to 1608), from the test
  \<^verbatim>\<open>size > 0\<close> on; a \<^verbatim>\<open>goto _again\<close> is one more pass, with \<^verbatim>\<open>size\<close> unchanged.
\<close>

definition write_pass ::
  "'b snd_pcm_t \<Rightarrow> snd_pcm_channel_area_t list \<Rightarrow> 'b xfer_func \<Rightarrow> snd_pcm_state_t \<Rightarrow>
   nat \<Rightarrow> nat \<Rightarrow> nat \<Rightarrow> int \<Rightarrow> 'b world \<Rightarrow> 'b pass" where
  "write_pass pcm areas func st offset sz xfer err w =
     (if \<not> sz > 0 then at_end xfer err w
      else case snd_pcm_avail_update pcm w of (avail, w1) \<Rightarrow>
        if avail < 0 then fail_end xfer (- EPIPE) w1
        else if st = SND_PCM_STATE_PREPARED \<and> avail = 0 then fail_end xfer (- EPIPE) w1
        else if st \<noteq> SND_PCM_STATE_PREPARED \<and> would_block (xfer_align pcm) sz avail then
          (if SND_PCM_NONBLOCK \<in> mode pcm then fail_end xfer (- EAGAIN) w1
           else case snd_pcm_wait pcm (- 1) w1 of (e, w2) \<Rightarrow>
             if e < 0 then fail_end xfer e w2
             else case snd_pcm_state pcm w2 of (st', w3) \<Rightarrow> Again st' offset sz xfer e w3)
        else write_xfer pcm areas func st offset sz xfer avail w1)"

text \<open>
  The loop. In blocking mode it may wait for ever: the first argument bounds the number
  of passes, and \<open>None\<close> is a call that is still running when the bound is used up.
\<close>

fun write_loop ::
  "nat \<Rightarrow> 'b snd_pcm_t \<Rightarrow> snd_pcm_channel_area_t list \<Rightarrow> 'b xfer_func \<Rightarrow> snd_pcm_state_t \<Rightarrow>
   nat \<Rightarrow> nat \<Rightarrow> nat \<Rightarrow> int \<Rightarrow> 'b world \<Rightarrow> (int outcome \<times> 'b world) option" where
  "write_loop 0 pcm areas func st offset sz xfer err w = None"
| "write_loop (Suc fuel) pcm areas func st offset sz xfer err w =
     (case write_pass pcm areas func st offset sz xfer err w of
        Done r \<Rightarrow> Some r
      | Again st' offset' sz' xfer' err' w' \<Rightarrow>
          write_loop fuel pcm areas func st' offset' sz' xfer' err' w')"

definition snd_pcm_write_areas ::
  "nat \<Rightarrow> 'b snd_pcm_t \<Rightarrow> snd_pcm_channel_area_t list \<Rightarrow> nat \<Rightarrow> nat \<Rightarrow> 'b xfer_func \<Rightarrow>
   'b world \<Rightarrow> (int outcome \<times> 'b world) option" where
  "snd_pcm_write_areas fuel pcm areas offset sz func w =
     (case snd_pcm_state pcm w of (st, w0) \<Rightarrow>
        if sz = 0 then Some (Returned 0, w0)
        else if sz > xfer_align pcm \<and> xfer_align pcm = 0 then Some (Undefined, w0)
        else
          (let sz' = (if sz > xfer_align pcm then sz - sz mod xfer_align pcm else sz)
           in if st = SND_PCM_STATE_PREPARED \<or> st = SND_PCM_STATE_RUNNING
              then write_loop fuel pcm areas func st offset sz' 0 0 w0
              else if st = SND_PCM_STATE_XRUN
              then Some (Returned (- EPIPE), log_event (Raise (- EPIPE)) w0)
              else Some (Returned (- EBADFD), log_event (Raise (- EBADFD)) w0)))"

text \<open>
  The loop body of \<^verbatim>\<open>snd_pcm_read_areas\<close> (lines 1476 to 1525), in the same two parts:
  nothing starts the stream after a transfer, and the state that turns an empty ring
  into an error is DRAINING.
\<close>

definition read_xfer ::
  "'b snd_pcm_t \<Rightarrow> snd_pcm_channel_area_t list \<Rightarrow> 'b xfer_func \<Rightarrow> snd_pcm_state_t \<Rightarrow>
   nat \<Rightarrow> nat \<Rightarrow> nat \<Rightarrow> int \<Rightarrow> 'b world \<Rightarrow> 'b pass" where
  "read_xfer pcm areas func st offset sz xfer avail w1 =
     (if nat avail > xfer_align pcm \<and> xfer_align pcm = 0 then Done (Undefined, w1)
      else
        (let frames = xfer_frames (xfer_align pcm) (nat avail) sz
         in if \<not> frames \<noteq> 0 then Done (Aborted, w1)
            else case call_xfer func areas offset frames w1 of (r, w2) \<Rightarrow>
              if c_int r < 0 then fail_end xfer (c_int r) w2
              else if \<not> nat (c_int r) = frames then Done (Aborted, w2)
              else Again st (c_ulong (offset + frames)) (sz - frames) (xfer + frames) (c_int r) w2))"

definition read_pass ::
  "'b snd_pcm_t \<Rightarrow> snd_pcm_channel_area_t list \<Rightarrow> 'b xfer_func \<Rightarrow> snd_pcm_state_t \<Rightarrow>
   nat \<Rightarrow> nat \<Rightarrow> nat \<Rightarrow> int \<Rightarrow> 'b world \<Rightarrow> 'b pass" where
  "read_pass pcm areas func st offset sz xfer err w =
     (if \<not> sz > 0 then at_end xfer err w
      else case snd_pcm_avail_update pcm w of (avail, w1) \<Rightarrow>
        if avail < 0 then fail_end xfer (- EPIPE) w1
        else if st = SND_PCM_STATE_DRAINING \<and> avail = 0 then fail_end xfer (- EPIPE) w1
        else if st \<noteq> SND_PCM_STATE_DRAINING \<and> would_block (xfer_align pcm) sz avail then
          (if SND_PCM_NONBLOCK \<in> mode pcm then fail_end xfer (- EAGAIN) w1
           else case snd_pcm_wait pcm (- 1) w1 of (e, w2) \<Rightarrow>
             if e < 0 then fail_end xfer e w2
             else case snd_pcm_state pcm w2 of (st', w3) \<Rightarrow> Again st' offset sz xfer e w3)
        else read_xfer pcm areas func st offset sz xfer avail w1)"

fun read_loop ::
  "nat \<Rightarrow> 'b snd_pcm_t \<Rightarrow> snd_pcm_channel_area_t list \<Rightarrow> 'b xfer_func \<Rightarrow> snd_pcm_state_t \<Rightarrow>
   nat \<Rightarrow> nat \<Rightarrow> nat \<Rightarrow> int \<Rightarrow> 'b world \<Rightarrow> (int outcome \<times> 'b world) option" where
  "read_loop 0 pcm areas func st offset sz xfer err w = None"
| "read_loop (Suc fuel) pcm areas func st offset sz xfer err w =
     (case read_pass pcm areas func st offset sz xfer err w of
        Done r \<Rightarrow> Some r
      | Again st' offset' sz' xfer' err' w' \<Rightarrow>
          read_loop fuel pcm areas func st' offset' sz' xfer' err' w')"

definition snd_pcm_read_areas ::
  "nat \<Rightarrow> 'b snd_pcm_t \<Rightarrow> snd_pcm_channel_area_t list \<Rightarrow> nat \<Rightarrow> nat \<Rightarrow> 'b xfer_func \<Rightarrow>
   'b world \<Rightarrow> (int outcome \<times> 'b world) option" where
  "snd_pcm_read_areas fuel pcm areas offset sz func w =
     (case snd_pcm_state pcm w of (st, w0) \<Rightarrow>
        if sz = 0 then Some (Returned 0, w0)
        else if sz > xfer_align pcm \<and> xfer_align pcm = 0 then Some (Undefined, w0)
        else
          (let sz' = (if sz > xfer_align pcm then sz - sz mod xfer_align pcm else sz)
           in if st = SND_PCM_STATE_PREPARED then
                (if start_mode pcm = SND_PCM_START_DATA then
                   (case snd_pcm_start pcm w0 of
                      (Returned e, w1) \<Rightarrow>
                        if e < 0 then Some (Returned e, log_event (Raise e) w1)
                        else read_loop fuel pcm areas func st offset sz' 0 e w1
                    | (other, w1) \<Rightarrow> Some (propagate other, w1))
                 else read_loop fuel pcm areas func st offset sz' 0 0 w0)
              else if st = SND_PCM_STATE_DRAINING \<or> st = SND_PCM_STATE_RUNNING
              then read_loop fuel pcm areas func st offset sz' 0 0 w0
              else if st = SND_PCM_STATE_XRUN
              then Some (Returned (- EPIPE), log_event (Raise (- EPIPE)) w0)
              else Some (Returned (- EBADFD), log_event (Raise (- EBADFD)) w0)))"

subsection \<open>The channel-area engine (pcm.c, lines 1107 to 1412)\<close>

text \<open>
  Memory is a byte at every address; the address 0 is the null pointer. A store of a
  wider integer writes its bytes in the order of the host, a parameter of the
  functions, and is taken to work at every address, aligned or not. \<^verbatim>\<open>unsigned int\<close> has
  32 bits: its arithmetic is arithmetic modulo \<open>2 ^ 32\<close>,
  and \<open>c_uint\<close> is the conversion of an \<^verbatim>\<open>int\<close> to it.
\<close>

type_synonym memory = "nat \<Rightarrow> 8 word"

datatype byte_order = Little_endian | Big_endian

definition u32 :: "nat \<Rightarrow> nat" where
  "u32 x = x mod 2 ^ 32"

definition c_uint :: "int \<Rightarrow> nat" where
  "c_uint x = nat (x mod 2 ^ 32)"

definition store_bytes :: "byte_order \<Rightarrow> nat \<Rightarrow> nat \<Rightarrow> 64 word \<Rightarrow> memory \<Rightarrow> memory" where
  "store_bytes bo k a v m =
     (\<lambda>x. if a \<le> x \<and> x < a + k
          then ucast (drop_bit (8 * (case bo of Little_endian \<Rightarrow> x - a
                                              | Big_endian \<Rightarrow> k - 1 - (x - a))) v)
          else m x)"

definition copy_bytes :: "nat \<Rightarrow> nat \<Rightarrow> nat \<Rightarrow> memory \<Rightarrow> memory" where
  "copy_bytes k dst src m = (\<lambda>x. if dst \<le> x \<and> x < dst + k then m (src + (x - dst)) else m x)"

text \<open>
  \<^verbatim>\<open>snd_pcm_format_physical_width\<close> and \<^verbatim>\<open>snd_pcm_format_silence_64\<close> are defined in a file
  that is not part of the sources. The two functions are all that the area engine asks
  of a format: a format is given here by what they return for it.
\<close>

record format_info =
  physical_width :: int
  silence_64 :: "64 word"

text \<open>
  Modelled from the spec: \<^verbatim>\<open>snd_pcm_channel_area_addr\<close> (its header is not part of the
  sources). The specification gives the byte address of a sample as
  \<^verbatim>\<open>area.addr + area.first/8 + frame_index * area.step/8\<close>, read with the precedence of C.
\<close>

definition snd_pcm_channel_area_addr :: "snd_pcm_channel_area_t \<Rightarrow> nat \<Rightarrow> nat" where
  "snd_pcm_channel_area_addr area offset = addr area + first area div 8 + offset * step area div 8"

text \<open>
  The loops of \<^verbatim>\<open>snd_pcm_area_silence\<close> (lines 1114 to 1194). The first stores \<^verbatim>\<open>dwords\<close>
  words of 64 bits and leaves \<^verbatim>\<open>dst\<close> behind the last of them. The loop for a width of 4
  bits keeps the nibble it is at in \<^verbatim>\<open>dstbit\<close>: when that is not 0 it writes the bits of
  the mask \<^verbatim>\<open>0x0f\<close>, and the bits of the mask \<^verbatim>\<open>0xf0\<close> when it is 0. \<^verbatim>\<open>dstbit\<close> is an \<^verbatim>\<open>int\<close>, and
  a sum out of its range is undefined. The loops for the other widths store one sample of
  \<open>k\<close> bytes in each round.
\<close>

fun silence_dwords :: "byte_order \<Rightarrow> nat \<Rightarrow> nat \<Rightarrow> 64 word \<Rightarrow> memory \<Rightarrow> nat \<times> memory" where
  "silence_dwords bo dwords dst silence m =
     (if dwords = 0 then (dst, m)
      else silence_dwords bo (dwords - 1) (dst + 8) silence (store_bytes bo 8 dst silence m))"

declare silence_dwords.simps [simp del]

fun silence_nibbles ::
  "nat \<Rightarrow> nat \<Rightarrow> nat \<Rightarrow> nat \<Rightarrow> nat \<Rightarrow> 8 word \<Rightarrow> 8 word \<Rightarrow> memory \<Rightarrow> memory outcome" where
  "silence_nibbles samples dst dstbit dst_step dstbit_step s0 s1 m =
     (if samples = 0 then Returned m
      else if dstbit + dstbit_step \<ge> 2 ^ 31 then Undefined
      else if dstbit + dstbit_step = 8
      then silence_nibbles (samples - 1) (dst + dst_step + 1) 0 dst_step dstbit_step s0 s1
             (m(dst := (if dstbit \<noteq> 0 then (m dst AND 0xf0) OR s1 else (m dst AND 0x0f) OR s0)))
      else silence_nibbles (samples - 1) (dst + dst_step) (dstbit + dstbit_step) dst_step
             dstbit_step s0 s1
             (m(dst := (if dstbit \<noteq> 0 then (m dst AND 0xf0) OR s1 else (m dst AND 0x0f) OR s0))))"

declare silence_nibbles.simps [simp del]

fun silence_samples ::
  "byte_order \<Rightarrow> nat \<Rightarrow> nat \<Rightarrow> nat \<Rightarrow> nat \<Rightarrow> 64 word \<Rightarrow> memory \<Rightarrow> memory" where
  "silence_samples bo k samples dst dst_step silence m =
     (if samples = 0 then m
      else silence_samples bo k (samples - 1) (dst + dst_step) dst_step silence
             (store_bytes bo k dst silence m))"

declare silence_samples.simps [simp del]

text \<open>
  \<^verbatim>\<open>snd_pcm_area_silence\<close> from the \<^verbatim>\<open>switch\<close> on: the loop of the width, and the failed
  assertion for a width that is none of 4, 8, 16, 32 and 64.
\<close>

definition silence_tail ::
  "byte_order \<Rightarrow> snd_pcm_channel_area_t \<Rightarrow> nat \<Rightarrow> nat \<Rightarrow> format_info \<Rightarrow> memory \<Rightarrow>
   (int \<times> memory) outcome" where
  "silence_tail bo dst_area dst samples fmt m =
     (let dst_step = step dst_area div 8; width = physical_width fmt; silence = silence_64 fmt
      in if width = 4 then
           (case silence_nibbles samples dst (first dst_area mod 8) dst_step (step dst_area mod 8)
                   (ucast silence AND 0xf0) (ucast silence AND 0x0f) m of
              Returned m' \<Rightarrow> Returned (0, m')
            | Aborted \<Rightarrow> Aborted
            | Undefined \<Rightarrow> Undefined)
         else if width = 8 then Returned (0, silence_samples bo 1 samples dst dst_step silence m)
         else if width = 16 then Returned (0, silence_samples bo 2 samples dst dst_step silence m)
         else if width = 32 then Returned (0, silence_samples bo 4 samples dst dst_step silence m)
         else if width = 64 then Returned (0, silence_samples bo 8 samples dst dst_step silence m)
         else Aborted)"

text \<open>
  \<^verbatim>\<open>snd_pcm_area_silence\<close>. Where the step of the area is the width of the format,
  \<^verbatim>\<open>samples * width / 64\<close> words of 64 bits are stored first and the samples they hold are
  taken off \<^verbatim>\<open>samples\<close>, in \<^verbatim>\<open>unsigned int\<close>; the division by a width of 0 is undefined.
\<close>

definition snd_pcm_area_silence ::
  "byte_order \<Rightarrow> snd_pcm_channel_area_t \<Rightarrow> nat \<Rightarrow> nat \<Rightarrow> format_info \<Rightarrow> memory \<Rightarrow>
   (int \<times> memory) outcome" where
  "snd_pcm_area_silence bo dst_area dst_offset samples fmt m =
     (if addr dst_area = 0 then Returned (0, m)
      else
        (let dst = snd_pcm_channel_area_addr dst_area dst_offset;
             uw = c_uint (physical_width fmt)
         in if step dst_area = uw then
              (if uw = 0 then Undefined
               else
                 (let dwords = u32 (samples * uw) div 64;
                      samples1 = u32 (samples + 2 ^ 32 - u32 (dwords * 64) div uw)
                  in case silence_dwords bo dwords dst (silence_64 fmt) m of
                       (dst1, m1) \<Rightarrow>
                         if samples1 = 0 then Returned (0, m1)
                         else silence_tail bo dst_area dst1 samples1 fmt m1))
            else silence_tail bo dst_area dst samples fmt m))"

text \<open>
  The loops of \<^verbatim>\<open>snd_pcm_area_copy\<close> (lines 1256 to 1350). The nibble that is read is put
  into the destination at the place it has in the source byte.
\<close>

fun copy_nibbles ::
  "nat \<Rightarrow> nat \<Rightarrow> nat \<Rightarrow> nat \<Rightarrow> nat \<Rightarrow> nat \<Rightarrow> nat \<Rightarrow> nat \<Rightarrow> nat \<Rightarrow> memory \<Rightarrow> memory outcome" where
  "copy_nibbles samples src srcbit src_step srcbit_step dst dstbit dst_step dstbit_step m =
     (if samples = 0 then Returned m
      else if srcbit + srcbit_step \<ge> 2 ^ 31 \<or> dstbit + dstbit_step \<ge> 2 ^ 31 then Undefined
      else copy_nibbles (samples - 1)
             (if srcbit + srcbit_step = 8 then src + src_step + 1 else src + src_step)
             (if srcbit + srcbit_step = 8 then 0 else srcbit + srcbit_step) src_step srcbit_step
             (if dstbit + dstbit_step = 8 then dst + dst_step + 1 else dst + dst_step)
             (if dstbit + dstbit_step = 8 then 0 else dstbit + dstbit_step) dst_step dstbit_step
             (m(dst := (if dstbit \<noteq> 0 then m dst AND 0xf0 else m dst AND 0x0f) OR
                       (if srcbit \<noteq> 0 then m src AND 0x0f else m src AND 0xf0))))"

declare copy_nibbles.simps [simp del]

fun copy_samples :: "nat \<Rightarrow> nat \<Rightarrow> nat \<Rightarrow> nat \<Rightarrow> nat \<Rightarrow> nat \<Rightarrow> memory \<Rightarrow> memory" where
  "copy_samples k samples src src_step dst dst_step m =
     (if samples = 0 then m
      else copy_samples k (samples - 1) (src + src_step) src_step (dst + dst_step) dst_step
             (copy_bytes k dst src m))"

declare copy_samples.simps [simp del]

definition copy_tail ::
  "snd_pcm_channel_area_t \<Rightarrow> nat \<Rightarrow> snd_pcm_channel_area_t \<Rightarrow> nat \<Rightarrow> nat \<Rightarrow> format_info \<Rightarrow>
   memory \<Rightarrow> (int \<times> memory) outcome" where
  "copy_tail dst_area dst src_area src samples fmt m =
     (let src_step = step src_area div 8; dst_step = step dst_area div 8;
          width = physical_width fmt
      in if width = 4 then
           (case copy_nibbles samples src (first src_area mod 8) src_step (step src_area mod 8)
                   dst (first dst_area mod 8) dst_step (step dst_area mod 8) m of
              Returned m' \<Rightarrow> Returned (0, m')
            | Aborted \<Rightarrow> Aborted
            | Undefined \<Rightarrow> Undefined)
         else if width = 8 then Returned (0, copy_samples 1 samples src src_step dst dst_step m)
         else if width = 16 then Returned (0, copy_samples 2 samples src src_step dst dst_step m)
         else if width = 32 then Returned (0, copy_samples 4 samples src src_step dst dst_step m)
         else if width = 64 then Returned (0, copy_samples 8 samples src src_step dst dst_step m)
         else Aborted)"

text \<open>
  \<^verbatim>\<open>snd_pcm_area_copy\<close>. Where both steps are the width of the format, \<^verbatim>\<open>memcpy\<close> copies
  the \<^verbatim>\<open>samples * width / 8\<close> whole bytes (undefined when the two ranges overlap), and the
  samples they hold are taken off \<^verbatim>\<open>samples\<close>. The loop of the width then copies the
  samples that are left, from the values \<^verbatim>\<open>src\<close> and \<^verbatim>\<open>dst\<close> had before the \<^verbatim>\<open>memcpy\<close>: the
  function does not move them.
\<close>

definition snd_pcm_area_copy ::
  "byte_order \<Rightarrow> snd_pcm_channel_area_t \<Rightarrow> nat \<Rightarrow> snd_pcm_channel_area_t \<Rightarrow> nat \<Rightarrow> nat \<Rightarrow>
   format_info \<Rightarrow> memory \<Rightarrow> (int \<times> memory) outcome" where
  "snd_pcm_area_copy bo dst_area dst_offset src_area src_offset samples fmt m =
     (if addr src_area = 0 then snd_pcm_area_silence bo dst_area dst_offset samples fmt m
      else if addr dst_area = 0 then Returned (0, m)
      else
        (let src = snd_pcm_channel_area_addr src_area src_offset;
             dst = snd_pcm_channel_area_addr dst_area dst_offset;
             uw = c_uint (physical_width fmt)
         in if step src_area = uw \<and> step dst_area = uw then
              (let bytes = u32 (samples * uw) div 8
               in if physical_width fmt = 0 then Undefined
                  else if 0 < bytes \<and> dst < src + bytes \<and> src < dst + bytes then Undefined
                  else
                    (let samples1 =
                           u32 (samples + 2 ^ 32 -
                                u32 (c_ulong (bytes * 8) div nat (physical_width fmt mod 2 ^ 64)));
                         m1 = copy_bytes bytes dst src m
                     in if samples1 = 0 then Returned (0, m1)
                        else copy_tail dst_area dst src_area src samples1 fmt m1))
            else copy_tail dst_area dst src_area src samples fmt m))"

text \<open>
  \<^verbatim>\<open>snd_pcm_areas_copy\<close> (lines 1363 to 1412). The arrays of areas are lists, and both
  pointers into them are at the same index \<open>pos\<close>; an index outside a list is an
  undefined read. \<open>copy_run\<close> is the inner loop: the number \<^verbatim>\<open>chns\<close> of channels, from
  \<open>pos\<close> on, that it runs over before it stops.
\<close>

fun copy_run ::
  "snd_pcm_channel_area_t list \<Rightarrow> snd_pcm_channel_area_t list \<Rightarrow> nat \<Rightarrow> nat \<Rightarrow> nat \<Rightarrow> nat \<Rightarrow>
   nat \<Rightarrow> nat \<Rightarrow> nat option" where
  "copy_run dst_areas src_areas uw step0 src_addr dst_addr pos channels1 =
     (if pos \<ge> length dst_areas then None
      else if step (dst_areas ! pos) \<noteq> step0 then Some 0
      else if channels1 \<le> 1 then Some 1
      else if Suc pos \<ge> length src_areas \<or> Suc pos \<ge> length dst_areas then None
      else if step (src_areas ! Suc pos) \<noteq> step0 \<or>
              addr (src_areas ! Suc pos) \<noteq> src_addr \<or>
              addr (dst_areas ! Suc pos) \<noteq> dst_addr \<or>
              first (src_areas ! Suc pos) \<noteq> u32 (first (src_areas ! pos) + uw) \<or>
              first (dst_areas ! Suc pos) \<noteq> u32 (first (dst_areas ! pos) + uw)
           then Some 1
      else map_option Suc
             (copy_run dst_areas src_areas uw step0 src_addr dst_addr (Suc pos) (channels1 - 1)))"

declare copy_run.simps [simp del]

text \<open>
  One round of the outer loop: the run from \<open>pos\<close> on is copied by one call when it
  collapses, and its first channel alone otherwise. The result of \<^verbatim>\<open>snd_pcm_area_copy\<close>
  is not looked at. The round ends the call when it is undefined or stops in an
  assertion, and leaves the new index, the channels that remain and the memory
  otherwise. The counts are \<^verbatim>\<open>unsigned int\<close>; more than \<open>2 ^ 31 - 1\<close> channels do not fit
  the \<^verbatim>\<open>int\<close> that counts them in the inner loop, which then runs off the arrays.
\<close>

datatype areas_round = Stop "(int \<times> memory) outcome" | Next nat nat memory

definition copy_round ::
  "byte_order \<Rightarrow> snd_pcm_channel_area_t list \<Rightarrow> nat \<Rightarrow> snd_pcm_channel_area_t list \<Rightarrow> nat \<Rightarrow>
   nat \<Rightarrow> format_info \<Rightarrow> nat \<Rightarrow> nat \<Rightarrow> memory \<Rightarrow> areas_round" where
  "copy_round bo dst_areas dst_offset src_areas src_offset frames fmt pos channels m =
     (if pos \<ge> length src_areas \<or> pos \<ge> length dst_areas \<or> channels \<ge> 2 ^ 31 then Stop Undefined
      else
        (let uw = c_uint (physical_width fmt); step0 = step (src_areas ! pos)
         in case copy_run dst_areas src_areas uw step0 (addr (src_areas ! pos))
                   (addr (dst_areas ! pos)) pos channels of
              None \<Rightarrow> Stop Undefined
            | Some chns \<Rightarrow>
                if chns > 1 \<and> u32 (chns * uw) = step0 then
                  (case snd_pcm_area_copy bo
                          \<lparr>addr = addr (dst_areas ! pos), first = first (dst_areas ! pos), step = uw\<rparr>
                          (c_ulong (dst_offset * chns))
                          \<lparr>addr = addr (src_areas ! pos), first = first (src_areas ! pos), step = uw\<rparr>
                          (c_ulong (src_offset * chns))
                          (u32 (frames * chns)) fmt m of
                     Returned (err, m') \<Rightarrow> Next (pos + chns) (channels - chns) m'
                   | Aborted \<Rightarrow> Stop Aborted
                   | Undefined \<Rightarrow> Stop Undefined)
                else
                  (case snd_pcm_area_copy bo (dst_areas ! pos) dst_offset (src_areas ! pos)
                          src_offset (u32 frames) fmt m of
                     Returned (err, m') \<Rightarrow> Next (pos + 1) (channels - 1) m'
                   | Aborted \<Rightarrow> Stop Aborted
                   | Undefined \<Rightarrow> Stop Undefined)))"

lemma copy_round_less:
  "copy_round bo dst_areas dst_offset src_areas src_offset frames fmt pos channels m =
     Next pos' channels' m' \<Longrightarrow> channels \<noteq> 0 \<Longrightarrow> channels' < channels"
  by (auto simp add: copy_round_def Let_def
      split: if_splits option.splits outcome.splits prod.splits)

function areas_copy_loop ::
  "byte_order \<Rightarrow> snd_pcm_channel_area_t list \<Rightarrow> nat \<Rightarrow> snd_pcm_channel_area_t list \<Rightarrow> nat \<Rightarrow>
   nat \<Rightarrow> format_info \<Rightarrow> nat \<Rightarrow> nat \<Rightarrow> memory \<Rightarrow> (int \<times> memory) outcome" where
  "areas_copy_loop bo dst_areas dst_offset src_areas src_offset frames fmt pos channels m =
     (if channels = 0 then Returned (0, m)
      else case copy_round bo dst_areas dst_offset src_areas src_offset frames fmt pos channels m of
             Stop r \<Rightarrow> r
           | Next pos' channels' m' \<Rightarrow>
               areas_copy_loop bo dst_areas dst_offset src_areas src_offset frames fmt pos'
                 channels' m')"
  by pat_completeness auto

termination
  by (relation "measure (\<lambda>(bo, dst_areas, dst_offset, src_areas, src_offset, frames, fmt, pos,
        channels, m). channels)") (auto dest: copy_round_less)

declare areas_copy_loop.simps [simp del]

definition snd_pcm_areas_copy ::
  "byte_order \<Rightarrow> snd_pcm_channel_area_t list \<Rightarrow> nat \<Rightarrow> snd_pcm_channel_area_t list \<Rightarrow> nat \<Rightarrow>
   nat \<Rightarrow> nat \<Rightarrow> format_info \<Rightarrow> memory \<Rightarrow> (int \<times> memory) outcome" where
  "snd_pcm_areas_copy bo dst_areas dst_offset src_areas src_offset channels frames fmt m =
     areas_copy_loop bo dst_areas dst_offset src_areas src_offset frames fmt 0 channels m"

section \<open>A scripted backend for concrete runs\<close>

text \<open>
  A small backend to run the functions on: it reports the state it holds, moves to the
  state an operation names, and answers \<open>avail_update\<close> from a list of prepared results
  (0 once the list is used up). The transfer callback \<open>script_xfer\<close> moves every frame it
  is asked for.
\<close>

record script =
  reported :: snd_pcm_state_t
  avails :: "int list"

definition script_ops :: "script snd_pcm_ops_t" where
  "script_ops = \<lparr>close = (\<lambda>b. (0, b)), hw_free = (\<lambda>b. (0, b\<lparr>reported := SND_PCM_STATE_OPEN\<rparr>)),
     munmap = (\<lambda>b. (0, b))\<rparr>"

definition script_fast_ops :: "script snd_pcm_fast_ops_t" where
  "script_fast_ops = \<lparr>
     state = (\<lambda>b. (reported b, b)),
     prepare = (\<lambda>b. (0, b\<lparr>reported := SND_PCM_STATE_PREPARED\<rparr>)),
     reset = (\<lambda>b. (0, b)),
     start = (\<lambda>b. (0, b\<lparr>reported := SND_PCM_STATE_RUNNING\<rparr>)),
     drop_op = (\<lambda>b. (0, b\<lparr>reported := SND_PCM_STATE_SETUP\<rparr>)),
     drain = (\<lambda>b. (0, b\<lparr>reported := SND_PCM_STATE_SETUP\<rparr>)),
     pause = (\<lambda>enable b. (0, b)),
     rewind = (\<lambda>frames b. (int frames, b)),
     avail_update = (\<lambda>b. case avails b of [] \<Rightarrow> (0, b) | a # as \<Rightarrow> (a, b\<lparr>avails := as\<rparr>))\<rparr>"

definition script_pcm :: "script snd_pcm_t" where
  "script_pcm = \<lparr>name = Some ''script'', stream = SND_PCM_STREAM_PLAYBACK, mode = {},
     setup_flag = True, frame_bits = 32, xfer_align = 4, start_mode = SND_PCM_START_DATA,
     mmap_channels = None, ops = script_ops, fast_ops = script_fast_ops,
     poll_fd = (\<lambda>b. (1, b))\<rparr>"

definition script_xfer :: "script xfer_func" where
  "script_xfer areas offset frames b = (int frames, b)"

text \<open>A backend in trouble: every operation fails with \<open>-5\<close> and leaves the state alone.\<close>

definition failing_ops :: "script snd_pcm_ops_t" where
  "failing_ops = \<lparr>close = (\<lambda>b. (- 5, b)), hw_free = (\<lambda>b. (- 5, b)), munmap = (\<lambda>b. (- 5, b))\<rparr>"

definition failing_fast_ops :: "script snd_pcm_fast_ops_t" where
  "failing_fast_ops = script_fast_ops\<lparr>
     prepare := (\<lambda>b. (- 5, b)), start := (\<lambda>b. (- 5, b)),
     drop_op := (\<lambda>b. (- 5, b)), drain := (\<lambda>b. (- 5, b))\<rparr>"

definition failing_pcm :: "script snd_pcm_t" where
  "failing_pcm = script_pcm\<lparr>ops := failing_ops, fast_ops := failing_fast_ops\<rparr>"

section \<open>Closing an endpoint\<close>


text \<open>
  Claim C5: for every endpoint with \<open>setup\<close> true, \<^verbatim>\<open>snd_pcm_close\<close> stops the stream,
  calls \<^verbatim>\<open>snd_pcm_hw_free\<close>, invokes the backend's close and destroys the object. The
  code does not get that far on a playback endpoint in blocking mode whose backend is
  running and fails to drain: \<^verbatim>\<open>snd_pcm_close\<close> does not look at the result of
  \<^verbatim>\<open>snd_pcm_drain\<close> (line 107) and calls \<^verbatim>\<open>snd_pcm_hw_free\<close>, whose assertion on the state
  (line 206) fails on the stream that is still running. The log of the call ends with
  the state query: the backend's close is not invoked, the object is not released, and
  the call does not return.
\<close>

theorem snd_pcm_close_after_failed_drain:
  "snd_pcm_close failing_pcm (\<lparr>reported = SND_PCM_STATE_RUNNING, avails = []\<rparr>, []) =
     (Aborted, Some failing_pcm, (\<lparr>reported = SND_PCM_STATE_RUNNING, avails = []\<rparr>,
        [Call Op_drain (- 5), State_read SND_PCM_STATE_RUNNING])) \<and>
   setup_flag failing_pcm \<and> stream failing_pcm = SND_PCM_STREAM_PLAYBACK \<and>
   SND_PCM_NONBLOCK \<notin> mode failing_pcm"
  by (simp add: snd_pcm_close_def snd_pcm_hw_free_def snd_pcm_drop_def snd_pcm_drain_def
      snd_pcm_state_def snd_pcm_munmap_def call_op_def log_event_def
      failing_pcm_def failing_ops_def failing_fast_ops_def script_pcm_def script_fast_ops_def)




section \<open>The setup assertion\<close>

text \<open>
  Claim C6, as stated: \<^verbatim>\<open>snd_pcm_hw_free\<close> may be invoked without \<open>setup\<close> being true.
  It may not: its first statement is \<^verbatim>\<open>assert(pcm->setup)\<close>, and on an endpoint that is
  not set up the call stops there, before any call to the backend.
\<close>

theorem setup_assertion_counterexample:
  "snd_pcm_hw_free (script_pcm\<lparr>setup_flag := False\<rparr>)
       (\<lparr>reported = SND_PCM_STATE_OPEN, avails = []\<rparr>, []) =
     (Aborted, script_pcm\<lparr>setup_flag := False\<rparr>, (\<lparr>reported = SND_PCM_STATE_OPEN, avails = []\<rparr>, []))"
  by (simp add: snd_pcm_hw_free_def)

text \<open>
  Claim C6, amended: prepare, start, drop, drain, pause, reset, rewind and also
  \<^verbatim>\<open>snd_pcm_hw_free\<close> assert \<open>setup\<close>: on an endpoint that is not set up each of them stops
  in the assertion with the backend untouched, and on one that is set up none of the
  seven transitions stops (rewind, given a positive frame count). Only
  \<^verbatim>\<open>snd_pcm_hw_params\<close> and \<^verbatim>\<open>snd_pcm_close\<close> carry no such assertion: without \<open>setup\<close>,
  close returns 0, and hw_params returns unless the configuration it installed leaves
  \<open>setup\<close> false for the prepare that follows.
\<close>

theorem setup_assertion:
  "(\<not> setup_flag pcm \<longrightarrow>
      snd_pcm_prepare pcm w = (Aborted, w) \<and> snd_pcm_start pcm w = (Aborted, w) \<and>
      snd_pcm_drop pcm w = (Aborted, w) \<and> snd_pcm_drain pcm w = (Aborted, w) \<and>
      snd_pcm_pause pcm enable w = (Aborted, w) \<and> snd_pcm_reset pcm w = (Aborted, w) \<and>
      snd_pcm_rewind pcm frames w = (Aborted, w) \<and>
      snd_pcm_hw_free pcm w = (Aborted, pcm, w) \<and>
      fst (snd_pcm_close pcm w) = Returned 0 \<and>
      ((case hw_params_impl pcm w of (err, pcm1, w1) \<Rightarrow> err < 0 \<or> setup_flag pcm1) \<longrightarrow>
         fst (snd_pcm_hw_params hw_params_impl pcm w) \<noteq> Aborted)) \<and>
   (setup_flag pcm \<longrightarrow>
      fst (snd_pcm_prepare pcm w) \<noteq> Aborted \<and> fst (snd_pcm_start pcm w) \<noteq> Aborted \<and>
      fst (snd_pcm_drop pcm w) \<noteq> Aborted \<and> fst (snd_pcm_drain pcm w) \<noteq> Aborted \<and>
      fst (snd_pcm_pause pcm enable w) \<noteq> Aborted \<and> fst (snd_pcm_reset pcm w) \<noteq> Aborted \<and>
      (0 < frames \<longrightarrow> fst (snd_pcm_rewind pcm frames w) \<noteq> Aborted))"
proof (intro conjI impI)
  assume "\<not> setup_flag pcm"
  then show "fst (snd_pcm_close pcm w) = Returned 0"
    by (simp add: snd_pcm_close_def call_op_def split: prod.splits)
next
  assume "case hw_params_impl pcm w of (err, pcm1, w1) \<Rightarrow> err < 0 \<or> setup_flag pcm1"
  then show "fst (snd_pcm_hw_params hw_params_impl pcm w) \<noteq> Aborted"
    by (auto simp: snd_pcm_hw_params_def snd_pcm_prepare_def call_op_def split: prod.splits)
qed (simp_all add: snd_pcm_prepare_def snd_pcm_start_def snd_pcm_drop_def snd_pcm_drain_def
      snd_pcm_pause_def snd_pcm_reset_def snd_pcm_rewind_def snd_pcm_hw_free_def call_op_def
      split: prod.splits)

text \<open>
  A configuration step for the concrete run: it installs nothing but the \<open>setup\<close> flag.
\<close>

definition script_hw_params_impl ::
  "script snd_pcm_t \<Rightarrow> script world \<Rightarrow> int \<times> script snd_pcm_t \<times> script world" where
  "script_hw_params_impl pcm w = (0, pcm\<lparr>setup_flag := True\<rparr>, w)"

theorem setup_assertion_witness:
  "\<not> setup_flag (script_pcm\<lparr>setup_flag := False\<rparr>) \<and>
   snd_pcm_start (script_pcm\<lparr>setup_flag := False\<rparr>) (\<lparr>reported = SND_PCM_STATE_OPEN, avails = []\<rparr>, []) =
     (Aborted, (\<lparr>reported = SND_PCM_STATE_OPEN, avails = []\<rparr>, [])) \<and>
   snd_pcm_hw_free (script_pcm\<lparr>setup_flag := False\<rparr>) (\<lparr>reported = SND_PCM_STATE_OPEN, avails = []\<rparr>, []) =
     (Aborted, script_pcm\<lparr>setup_flag := False\<rparr>, (\<lparr>reported = SND_PCM_STATE_OPEN, avails = []\<rparr>, [])) \<and>
   fst (snd_pcm_close (script_pcm\<lparr>setup_flag := False\<rparr>)
      (\<lparr>reported = SND_PCM_STATE_OPEN, avails = []\<rparr>, [])) = Returned 0 \<and>
   snd_pcm_hw_params script_hw_params_impl (script_pcm\<lparr>setup_flag := False\<rparr>)
      (\<lparr>reported = SND_PCM_STATE_OPEN, avails = []\<rparr>, []) =
     (Returned 0, script_pcm, (\<lparr>reported = SND_PCM_STATE_PREPARED, avails = []\<rparr>, [Call Op_prepare 0])) \<and>
   setup_flag script_pcm \<and>
   snd_pcm_start script_pcm (\<lparr>reported = SND_PCM_STATE_PREPARED, avails = []\<rparr>, []) =
     (Returned 0, (\<lparr>reported = SND_PCM_STATE_RUNNING, avails = []\<rparr>, [Call Op_start 0])) \<and>
   snd_pcm_rewind script_pcm 3 (\<lparr>reported = SND_PCM_STATE_PREPARED, avails = []\<rparr>, []) =
     (Returned 3, (\<lparr>reported = SND_PCM_STATE_PREPARED, avails = []\<rparr>, [Call (Op_rewind 3) 3]))"
  using setup_assertion
    [of "script_pcm\<lparr>setup_flag := False\<rparr>" "(\<lparr>reported = SND_PCM_STATE_OPEN, avails = []\<rparr>, [])"
        0 0 script_hw_params_impl]
    setup_assertion
    [of script_pcm "(\<lparr>reported = SND_PCM_STATE_PREPARED, avails = []\<rparr>, [])" 0 3 script_hw_params_impl]
  by (simp add: snd_pcm_hw_params_def snd_pcm_prepare_def snd_pcm_start_def snd_pcm_rewind_def
      snd_pcm_hw_free_def snd_pcm_close_def call_op_def log_event_def script_hw_params_impl_def
      script_pcm_def script_ops_def script_fast_ops_def)

section \<open>Bytes and frames\<close>

lemma c_div_nonneg: "0 \<le> a \<Longrightarrow> 0 < b \<Longrightarrow> c_div a b = a div b"
  by (simp add: c_div_def)

lemma div_less_of_less_mult:
  fixes q n fb :: int
  assumes "0 < fb" "q < n * fb"
  shows "q div fb < n"
proof (rule ccontr)
  assume "\<not> q div fb < n"
  then have "n * fb \<le> (q div fb) * fb" using assms(1) by (simp add: mult_right_mono)
  moreover have "q = (q div fb) * fb + q mod fb" by simp
  moreover have "0 \<le> q mod fb" using assms(1) by simp
  ultimately show False using assms(2) by linarith
qed

lemma roundtrip_arith:
  fixes n fb :: int
  assumes "0 < fb"
  shows "((n * fb div 8) * 8 div fb = n) \<longleftrightarrow> 8 dvd n * fb"
proof
  assume d: "8 dvd n * fb"
  then have "(n * fb div 8) * 8 = n * fb" by simp
  then show "(n * fb div 8) * 8 div fb = n" using assms by simp
next
  assume e: "(n * fb div 8) * 8 div fb = n"
  show "8 dvd n * fb"
  proof (rule ccontr)
    assume nd: "\<not> 8 dvd n * fb"
    have "n * fb = (n * fb div 8) * 8 + n * fb mod 8" by simp
    moreover have "0 \<le> n * fb mod 8" by simp
    moreover have "n * fb mod 8 \<noteq> 0" using nd by (simp add: dvd_eq_mod_eq_0)
    ultimately have lt: "(n * fb div 8) * 8 < n * fb" by linarith
    have "(n * fb div 8) * 8 div fb < n"
      using assms lt by (rule div_less_of_less_mult)
    with e show False by simp
  qed
qed

text \<open>
  Claim C8, as stated: for every endpoint with \<open>setup\<close> true and every frame count
  \<open>n \<ge> 0\<close>, \<open>bytes_to_frames (frames_to_bytes n) = n\<close>. It fails when a frame is
  not a whole number of bytes: with 4 bits per frame (one channel of a 4-bit format),
  one frame is 0 bytes after the truncating division, and 0 bytes are 0 frames.
\<close>

theorem bytes_frames_roundtrip_counterexample:
  "setup_flag (script_pcm\<lparr>frame_bits := 4\<rparr>) \<and>
   snd_pcm_frames_to_bytes (script_pcm\<lparr>frame_bits := 4\<rparr>) 1 = Returned 0 \<and>
   and_then (snd_pcm_frames_to_bytes (script_pcm\<lparr>frame_bits := 4\<rparr>) 1)
            (snd_pcm_bytes_to_frames (script_pcm\<lparr>frame_bits := 4\<rparr>)) = Returned 0"
  by (simp add: snd_pcm_frames_to_bytes_def snd_pcm_bytes_to_frames_def in_long_def c_div_def
      script_pcm_def)

text \<open>
  Claim C8, amended: for every endpoint with \<open>setup\<close> true and a positive \<open>frame_bits\<close>,
  and every frame count \<open>n \<ge> 0\<close> whose size in bits \<open>n * frame_bits\<close> fits a
  \<^verbatim>\<open>long\<close>, \<open>bytes_to_frames (frames_to_bytes n) = n\<close> holds exactly when
  \<open>n * frame_bits\<close> is a multiple of 8; so it holds for every such \<open>n\<close> when
  \<open>frame_bits\<close> is a multiple of 8.
\<close>

theorem bytes_frames_roundtrip:
  assumes "setup_flag pcm" "0 \<le> n" "0 < frame_bits pcm" "n * int (frame_bits pcm) < 2 ^ 63"
  shows "(and_then (snd_pcm_frames_to_bytes pcm n) (snd_pcm_bytes_to_frames pcm) = Returned n)
          \<longleftrightarrow> 8 dvd n * int (frame_bits pcm)"
proof -
  let ?fb = "int (frame_bits pcm)"
  have p: "0 \<le> n * ?fb" using assms by simp
  have l1: "in_long (n * ?fb)" using assms(4) p by (simp add: in_long_def)
  have f: "snd_pcm_frames_to_bytes pcm n = Returned (n * ?fb div 8)"
    using assms(1) l1 p by (simp add: snd_pcm_frames_to_bytes_def c_div_nonneg)
  have b0: "0 \<le> n * ?fb div 8" using p by (simp add: pos_imp_zdiv_nonneg_iff)
  have "n * ?fb = (n * ?fb div 8) * 8 + n * ?fb mod 8" by simp
  moreover have "0 \<le> n * ?fb mod 8" by simp
  ultimately have "(n * ?fb div 8) * 8 \<le> n * ?fb" by linarith
  then have l2: "in_long ((n * ?fb div 8) * 8)" using assms(4) b0 by (simp add: in_long_def)
  have b: "snd_pcm_bytes_to_frames pcm (n * ?fb div 8) = Returned ((n * ?fb div 8) * 8 div ?fb)"
    using assms(1,3) l2 b0 by (simp add: snd_pcm_bytes_to_frames_def c_div_nonneg)
  show ?thesis using f b roundtrip_arith[of ?fb n] assms(3) by simp
qed

theorem bytes_frames_roundtrip_witness:
  "setup_flag script_pcm \<and> (0::int) \<le> 3 \<and> 0 < frame_bits script_pcm \<and>
   3 * int (frame_bits script_pcm) < 2 ^ 63 \<and> 8 dvd 3 * int (frame_bits script_pcm) \<and>
   snd_pcm_frames_to_bytes script_pcm 3 = Returned 12 \<and>
   and_then (snd_pcm_frames_to_bytes script_pcm 3) (snd_pcm_bytes_to_frames script_pcm) = Returned 3"
proof -
  have h: "setup_flag script_pcm" "(0::int) \<le> 3" "0 < frame_bits script_pcm"
    "3 * int (frame_bits script_pcm) < 2 ^ 63"
    by (simp_all add: script_pcm_def)
  have d: "8 dvd 3 * int (frame_bits script_pcm)" by (simp add: script_pcm_def)
  have "and_then (snd_pcm_frames_to_bytes script_pcm 3) (snd_pcm_bytes_to_frames script_pcm)
        = Returned 3"
    using bytes_frames_roundtrip [OF h] d by simp
  moreover have "snd_pcm_frames_to_bytes script_pcm 3 = Returned 12"
    by (simp add: snd_pcm_frames_to_bytes_def in_long_def c_div_def script_pcm_def)
  ultimately show ?thesis using h d by simp
qed

section \<open>Names of the sample formats\<close>

text \<open>
  What \<^verbatim>\<open>strcasecmp\<close> compares: the string up to its first NUL, in lower case.
\<close>

definition canon :: "string \<Rightarrow> string" where
  "canon s = map tolower (takeWhile (\<lambda>c. c \<noteq> CHR 0x00) s)"

lemma tolower_nul: "tolower c = CHR 0x00 \<longleftrightarrow> c = CHR 0x00"
proof (cases "map_of (zip ''ABCDEFGHIJKLMNOPQRSTUVWXYZ'' ''abcdefghijklmnopqrstuvwxyz'') c")
  case None
  then show ?thesis by (simp add: tolower_def)
next
  case (Some l)
  then have "(c, l) \<in> set (zip ''ABCDEFGHIJKLMNOPQRSTUVWXYZ'' ''abcdefghijklmnopqrstuvwxyz'')"
    by (rule map_of_SomeD)
  then have "c \<noteq> CHR 0x00 \<and> l \<noteq> CHR 0x00" by auto
  then show ?thesis using Some by (simp add: tolower_def)
qed

lemma of_char_zero_iff: "(of_char c :: nat) = 0 \<longleftrightarrow> c = CHR 0x00"
  by (cases c) simp

lemma strcasecmp_zero_iff: "strcasecmp a b = 0 \<longleftrightarrow> canon a = canon b"
proof (induction a b rule: strcasecmp.induct)
  case 1
  then show ?case by (simp add: canon_def)
next
  case (2 y ys)
  then show ?case using tolower_nul[of y] of_char_zero_iff[of "tolower y"] by (auto simp: canon_def)
next
  case (3 x xs)
  then show ?case using tolower_nul[of x] of_char_zero_iff[of "tolower x"] by (auto simp: canon_def)
next
  case (4 x xs y ys)
  show ?case
  proof (cases "tolower x = tolower y")
    case False
    then have "strcasecmp (x # xs) (y # ys) \<noteq> 0" by simp
    moreover have "canon (x # xs) \<noteq> canon (y # ys)"
      using False tolower_nul[of x] tolower_nul[of y] by (auto simp: canon_def)
    ultimately show ?thesis by simp
  next
    case True
    show ?thesis
    proof (cases "x = CHR 0x00")
      case x0: True
      with True have "y = CHR 0x00" using tolower_nul[of y] tolower_nul[of x] by simp
      with x0 show ?thesis by (simp add: canon_def)
    next
      case x1: False
      with True have y1: "y \<noteq> CHR 0x00" using tolower_nul[of y] tolower_nul[of x] by auto
      have "strcasecmp (x # xs) (y # ys) = strcasecmp xs ys" using True x1 by simp
      moreover have "canon (x # xs) = canon (y # ys) \<longleftrightarrow> canon xs = canon ys"
        using True x1 y1 by (simp add: canon_def)
      ultimately show ?thesis using 4 True x1 by simp
    qed
  qed
qed

lemma find_unique:
  "x \<in> set xs \<Longrightarrow> P x \<Longrightarrow> (\<forall>y\<in>set xs. P y \<longrightarrow> y = x) \<Longrightarrow> find P xs = Some x"
proof (induction xs)
  case Nil
  then show ?case by simp
next
  case (Cons a xs)
  show ?case
  proof (cases "P a")
    case True
    then have "a = x" using Cons.prems(3) by simp
    then show ?thesis using True by simp
  next
    case False
    then have "x \<in> set xs" using Cons.prems(1,2) by auto
    moreover have "\<forall>y\<in>set xs. P y \<longrightarrow> y = x" using Cons.prems(3) by simp
    ultimately have "find P xs = Some x" using Cons.IH Cons.prems(2) by blast
    then show ?thesis using False by simp
  qed
qed

lemma canon_names:
  "map (canon \<circ> snd) format_initialisers =
     [''s8'', ''u8'', ''s16_le'', ''s16_be'', ''u16_le'', ''u16_be'', ''s24_le'', ''s24_be'',
      ''u24_le'', ''u24_be'', ''s32_le'', ''s32_be'', ''u32_le'', ''u32_be'', ''float_le'',
      ''float_be'', ''float64_le'', ''float64_be'', ''iec958_subframe_le'',
      ''iec958_subframe_be'', ''mu_law'', ''a_law'', ''ima_adpcm'', ''mpeg'', ''gsm'',
      ''special'']"
  by (simp add: format_initialisers_def canon_def tolower_def)

lemma distinct_canon: "distinct (map (canon \<circ> snd) format_initialisers)"
  unfolding canon_names by simp

lemma canon_inj:
  assumes "(f, s) \<in> set format_initialisers" "(f', s') \<in> set format_initialisers"
    "canon s = canon s'"
  shows "f = f' \<and> s = s'"
proof -
  have "inj_on (canon \<circ> snd) (set format_initialisers)"
    using distinct_canon by (simp add: distinct_map)
  then have "(f, s) = (f', s')"
    using assms inj_onD[of "canon \<circ> snd" "set format_initialisers" "(f, s)" "(f', s')"]
    by simp
  then show ?thesis by simp
qed

lemma names_Some_iff:
  assumes "distinct (map (num \<circ> fst) format_initialisers)"
  shows "snd_pcm_format_names num i = Some s \<longleftrightarrow>
         (\<exists>f. i = num f \<and> (f, s) \<in> set format_initialisers)"
proof -
  let ?xs = "map (\<lambda>(f, s). (num f, s)) format_initialisers"
  have m: "map fst ?xs = map (num \<circ> fst) format_initialisers" by (simp add: case_prod_beta comp_def)
  have d: "distinct (map fst ?xs)" unfolding m by (rule assms)
  have "map_of ?xs i = Some s \<longleftrightarrow> (i, s) \<in> set ?xs" using d by simp
  also have "\<dots> \<longleftrightarrow> (\<exists>f. i = num f \<and> (f, s) \<in> set format_initialisers)" by auto
  finally show ?thesis by (simp add: snd_pcm_format_names_def)
qed

lemma all_enumerators: "f \<in> fst ` set format_initialisers"
  by (cases f) (simp_all add: format_initialisers_def)

text \<open>
  Claim C10. \<^verbatim>\<open>snd_pcm_format_value\<close> is a left inverse of \<^verbatim>\<open>snd_pcm_format_name\<close>, whatever
  the case of the letters: under any numbering that gives the enumerators of the table
  distinct numbers up to \<^verbatim>\<open>SND_PCM_FORMAT_LAST\<close>, every format \<open>f\<close> has a name \<open>s\<close>,
  \<open>snd_pcm_format_value s\<close> is \<open>f\<close>, and so is the value of any string that
  \<^verbatim>\<open>strcasecmp\<close> finds equal to \<open>s\<close>; a string equal to no entry of the table gives
  \<^verbatim>\<open>SND_PCM_FORMAT_UNKNOWN\<close>.
\<close>

theorem format_value_left_inverse:
  assumes d: "distinct (map (num \<circ> fst) format_initialisers)"
    and b: "list_all (\<lambda>(f, s). num f \<le> last_format) format_initialisers"
  shows "(\<forall>f. \<exists>s. snd_pcm_format_name num last_format (num f) = Returned (Some s) \<and>
            snd_pcm_format_value num last_format s = SND_PCM_FORMAT (num f) \<and>
            (\<forall>name'. strcasecmp name' s = 0 \<longrightarrow>
               snd_pcm_format_value num last_format name' = SND_PCM_FORMAT (num f))) \<and>
         (\<forall>name'. (\<forall>i s. snd_pcm_format_names num i = Some s \<longrightarrow> strcasecmp name' s \<noteq> 0) \<longrightarrow>
            snd_pcm_format_value num last_format name' = SND_PCM_FORMAT_UNKNOWN)"
proof (intro conjI allI)
  fix f
  obtain s where fs: "(f, s) \<in> set format_initialisers" using all_enumerators[of f] by force
  have le: "num f \<le> last_format" using b fs by (auto simp: list_all_iff)
  have nm: "snd_pcm_format_names num (num f) = Some s"
    using names_Some_iff[OF d] fs by blast
  have v: "snd_pcm_format_value num last_format name' = SND_PCM_FORMAT (num f)"
    if eq: "strcasecmp name' s = 0" for name'
  proof -
    let ?P = "\<lambda>format. case snd_pcm_format_names num format of
                 None \<Rightarrow> False | Some s \<Rightarrow> strcasecmp name' s = 0"
    have "find ?P [0..<Suc last_format] = Some (num f)"
    proof (rule find_unique)
      show "num f \<in> set [0..<Suc last_format]" using le by auto
      show "?P (num f)" using nm eq by simp
      show "\<forall>y\<in>set [0..<Suc last_format]. ?P y \<longrightarrow> y = num f"
      proof (intro ballI impI)
      fix y assume "y \<in> set [0..<Suc last_format]" and py: "?P y"
      then obtain s' where s': "snd_pcm_format_names num y = Some s'" "strcasecmp name' s' = 0"
        by (auto split: option.splits)
      then obtain f' where f': "y = num f'" "(f', s') \<in> set format_initialisers"
        using names_Some_iff[OF d] by blast
      have "canon s = canon s'" using eq s'(2) by (simp add: strcasecmp_zero_iff)
      then have "f = f'" using canon_inj[OF fs f'(2)] by simp
      then show "y = num f" using f'(1) by simp
      qed
    qed
    then show ?thesis by (simp add: snd_pcm_format_value_def)
  qed
  have "strcasecmp s s = 0" by (simp add: strcasecmp_zero_iff)
  then have "snd_pcm_format_value num last_format s = SND_PCM_FORMAT (num f)" by (rule v)
  moreover have "snd_pcm_format_name num last_format (num f) = Returned (Some s)"
    using le nm by (simp add: snd_pcm_format_name_def)
  ultimately show "\<exists>s. snd_pcm_format_name num last_format (num f) = Returned (Some s) \<and>
            snd_pcm_format_value num last_format s = SND_PCM_FORMAT (num f) \<and>
            (\<forall>name'. strcasecmp name' s = 0 \<longrightarrow>
               snd_pcm_format_value num last_format name' = SND_PCM_FORMAT (num f))"
    using v by blast
next
  fix name'
  show "(\<forall>i s. snd_pcm_format_names num i = Some s \<longrightarrow> strcasecmp name' s \<noteq> 0) \<longrightarrow>
            snd_pcm_format_value num last_format name' = SND_PCM_FORMAT_UNKNOWN"
  proof
    assume a: "\<forall>i s. snd_pcm_format_names num i = Some s \<longrightarrow> strcasecmp name' s \<noteq> 0"
    have "find (\<lambda>format. case snd_pcm_format_names num format of
                 None \<Rightarrow> False | Some s \<Rightarrow> strcasecmp name' s = 0) [0..<Suc last_format] = None"
      using a by (auto simp: find_None_iff split: option.splits)
    then show "snd_pcm_format_value num last_format name' = SND_PCM_FORMAT_UNKNOWN"
      by (simp add: snd_pcm_format_value_def)
  qed
qed

text \<open>The numbering of the Linux sound interface, for a concrete run.\<close>

fun abi_number :: "format_enum \<Rightarrow> nat" where
  "abi_number S8 = 0" | "abi_number U8 = 1"
| "abi_number S16_LE = 2" | "abi_number S16_BE = 3"
| "abi_number U16_LE = 4" | "abi_number U16_BE = 5"
| "abi_number S24_LE = 6" | "abi_number S24_BE = 7"
| "abi_number U24_LE = 8" | "abi_number U24_BE = 9"
| "abi_number S32_LE = 10" | "abi_number S32_BE = 11"
| "abi_number U32_LE = 12" | "abi_number U32_BE = 13"
| "abi_number FLOAT_LE = 14" | "abi_number FLOAT_BE = 15"
| "abi_number FLOAT64_LE = 16" | "abi_number FLOAT64_BE = 17"
| "abi_number IEC958_SUBFRAME_LE = 18" | "abi_number IEC958_SUBFRAME_BE = 19"
| "abi_number MU_LAW = 20" | "abi_number A_LAW = 21"
| "abi_number IMA_ADPCM = 22" | "abi_number MPEG = 23"
| "abi_number GSM = 24" | "abi_number SPECIAL = 31"

theorem format_value_left_inverse_witness:
  "distinct (map (abi_number \<circ> fst) format_initialisers) \<and>
   list_all (\<lambda>(f, s). abi_number f \<le> 31) format_initialisers \<and>
   snd_pcm_format_name abi_number 31 (abi_number S16_LE) = Returned (Some ''S16_LE'') \<and>
   strcasecmp ''s16_Le'' ''S16_LE'' = 0 \<and>
   snd_pcm_format_value abi_number 31 ''S16_LE'' = SND_PCM_FORMAT 2 \<and>
   snd_pcm_format_value abi_number 31 ''s16_Le'' = SND_PCM_FORMAT 2 \<and>
   snd_pcm_format_value abi_number 31 ''S16'' = SND_PCM_FORMAT_UNKNOWN"
proof -
  have h1: "distinct (map (abi_number \<circ> fst) format_initialisers)"
    by (simp add: format_initialisers_def)
  have h2: "list_all (\<lambda>(f, s). abi_number f \<le> 31) format_initialisers"
    by (simp add: format_initialisers_def)
  note t = format_value_left_inverse [OF h1 h2]
  have n: "snd_pcm_format_name abi_number 31 (abi_number S16_LE) = Returned (Some ''S16_LE'')"
    by (simp add: snd_pcm_format_name_def snd_pcm_format_names_def format_initialisers_def)
  have c: "strcasecmp ''s16_Le'' ''S16_LE'' = 0" by (simp add: tolower_def)
  from t obtain s where s:
    "snd_pcm_format_name abi_number 31 (abi_number S16_LE) = Returned (Some s)"
    "snd_pcm_format_value abi_number 31 s = SND_PCM_FORMAT (abi_number S16_LE)"
    "\<forall>name'. strcasecmp name' s = 0 \<longrightarrow>
       snd_pcm_format_value abi_number 31 name' = SND_PCM_FORMAT (abi_number S16_LE)"
    by blast
  from s(1) n have e: "s = ''S16_LE''" by simp
  have v1: "snd_pcm_format_value abi_number 31 ''S16_LE'' = SND_PCM_FORMAT 2"
    using s(2) e by simp
  have v2: "snd_pcm_format_value abi_number 31 ''s16_Le'' = SND_PCM_FORMAT 2"
    using s(3) e c by simp
  have "\<forall>(f, s) \<in> set format_initialisers. strcasecmp ''S16'' s \<noteq> 0"
    by (simp add: format_initialisers_def tolower_def)
  then have "\<forall>i s. snd_pcm_format_names abi_number i = Some s \<longrightarrow> strcasecmp ''S16'' s \<noteq> 0"
    using names_Some_iff [OF h1] by blast
  then have v3: "snd_pcm_format_value abi_number 31 ''S16'' = SND_PCM_FORMAT_UNKNOWN"
    using t by blast
  show ?thesis using h1 h2 n c v1 v2 v3 by simp
qed


section \<open>The transfer loops\<close>

text \<open>
  What a log says about a call: the frames the transfer callback reported as moved, and
  the errors the loop set, in order. \<open>first_error\<close> is the first of them, and 0 when
  there is none. \<open>counted\<close> is the sum the loop keeps in \<^verbatim>\<open>xfer\<close>, from the results as
  it reads them in \<^verbatim>\<open>err\<close>; it is \<open>frames_moved\<close> when every result of the callback
  fits an \<^verbatim>\<open>int\<close>.
\<close>

fun frames_moved :: "event list \<Rightarrow> nat" where
  "frames_moved [] = 0"
| "frames_moved (Xfer offset frames r # es) = (if r < 0 then 0 else nat r) + frames_moved es"
| "frames_moved (e # es) = frames_moved es"

fun raises :: "event list \<Rightarrow> int list" where
  "raises [] = []"
| "raises (Raise e # es) = e # raises es"
| "raises (e # es) = raises es"

fun counted :: "event list \<Rightarrow> nat" where
  "counted [] = 0"
| "counted (Xfer offset frames r # es) = (if c_int r < 0 then 0 else nat (c_int r)) + counted es"
| "counted (e # es) = counted es"

definition in_int :: "int \<Rightarrow> bool" where
  "in_int x = (- (2 ^ 31) \<le> x \<and> x < 2 ^ 31)"

text \<open>Every result the callback returned during the call fits an \<^verbatim>\<open>int\<close>.\<close>

fun results_fit :: "event list \<Rightarrow> bool" where
  "results_fit [] = True"
| "results_fit (Xfer offset frames r # es) = (in_int r \<and> results_fit es)"
| "results_fit (e # es) = results_fit es"

definition first_error :: "event list \<Rightarrow> int" where
  "first_error tr = (case raises tr of [] \<Rightarrow> 0 | e # es \<Rightarrow> e)"

lemma frames_moved_append [simp]: "frames_moved (xs @ ys) = frames_moved xs + frames_moved ys"
  by (induction xs rule: frames_moved.induct) simp_all

lemma counted_append [simp]: "counted (xs @ ys) = counted xs + counted ys"
  by (induction xs rule: counted.induct) simp_all

lemma results_fit_append [simp]: "results_fit (xs @ ys) = (results_fit xs \<and> results_fit ys)"
  by (induction xs rule: results_fit.induct) simp_all

lemma c_int_id: "in_int x \<Longrightarrow> c_int x = x"
  by (simp add: in_int_def c_int_def)

lemma c_long_id: "0 \<le> x \<Longrightarrow> x < 2 ^ 63 \<Longrightarrow> c_long x = x"
  by (simp add: c_long_def)

lemma counted_frames_moved: "results_fit tr \<Longrightarrow> counted tr = frames_moved tr"
  by (induction tr rule: counted.induct) (simp_all add: c_int_id)

lemma raises_append [simp]: "raises (xs @ ys) = raises xs @ raises ys"
  by (induction xs rule: raises.induct) simp_all

lemma Raise_in_set: "Raise x \<in> set tr \<longleftrightarrow> x \<in> set (raises tr)"
  by (induction tr rule: raises.induct) auto

lemmas pass_defs = at_end_def fail_end_def log_event_def call_op_def call_xfer_def
  snd_pcm_avail_update_def snd_pcm_wait_def snd_pcm_state_def snd_pcm_start_def Let_def

definition ret_ok :: "int \<Rightarrow> int \<Rightarrow> event list \<Rightarrow> bool" where
  "ret_ok r err tr \<longleftrightarrow>
     r = (if counted tr > 0 then c_long (int (counted tr))
          else case raises tr of [] \<Rightarrow> err | e # es \<Rightarrow> e) \<and> length (raises tr) \<le> 1"

definition ends_with :: "event list \<Rightarrow> event list \<Rightarrow> bool" where
  "ends_with tr es \<longleftrightarrow> length es \<le> length tr \<and> drop (length tr - length es) tr = es"

definition quiet :: "event list \<Rightarrow> bool" where
  "quiet tr \<longleftrightarrow> (\<forall>p. Call Sys_poll p \<notin> set tr) \<and> Call Op_avail_update 0 \<notin> set tr"

definition pass_inv ::
  "'b snd_pcm_t \<Rightarrow> snd_pcm_state_t \<Rightarrow> bool \<Rightarrow> nat \<Rightarrow> nat \<Rightarrow> int \<Rightarrow> 'b pass \<Rightarrow> bool" where
  "pass_inv pcm st stopping sz xfer err p =
     (case p of
        Done (out, w') \<Rightarrow>
          (stopping \<longrightarrow> (\<forall>p. Call Sys_poll p \<notin> set (snd w'))) \<and>
          (case out of
             Returned r \<Rightarrow>
               ret_ok r err (snd w') \<and> counted (snd w') \<le> xfer + sz \<and>
               (sz > 0 \<or> xfer > 0 \<longrightarrow> counted (snd w') > 0 \<or> raises (snd w') \<noteq> []) \<and>
               (stopping \<and> Call Op_avail_update 0 \<in> set (snd w') \<longrightarrow>
                  raises (snd w') = [- EPIPE] \<and>
                  ends_with (snd w') [Call Op_avail_update 0, Raise (- EPIPE)])
           | Aborted \<Rightarrow> stopping \<longrightarrow> Call Op_avail_update 0 \<notin> set (snd w')
           | Undefined \<Rightarrow> stopping \<longrightarrow> Call Op_avail_update 0 \<notin> set (snd w'))
      | Again st' offset' sz' xfer' err' w' \<Rightarrow>
          xfer' = counted (snd w') \<and> raises (snd w') = [] \<and> (sz' > 0 \<or> xfer' > 0) \<and>
          xfer' + sz' \<le> xfer + sz \<and>
          (SND_PCM_NONBLOCK \<in> mode pcm \<or> stopping \<longrightarrow> sz' < sz) \<and>
          (stopping \<longrightarrow> st' = st \<and> quiet (snd w')))"

lemma xfer_frames_le: "xfer_frames align avail sz \<le> sz"
  by (simp add: xfer_frames_def Let_def)

lemmas inv_defs = pass_inv_def ret_ok_def quiet_def ends_with_def at_end_def fail_end_def
  log_event_def

lemma write_xfer_inv:
  assumes r0: "raises t = []" and sz: "0 < sz"
    and q: "stopping \<longrightarrow> st = SND_PCM_STATE_PREPARED \<and> quiet t"
  shows "pass_inv pcm st stopping sz (counted t) err
           (write_xfer pcm areas func st offset sz (counted t) avail (b1, t))"
proof (cases "nat avail > xfer_align pcm \<and> xfer_align pcm = 0")
  case True
  then have "xfer_align pcm = 0" "0 < avail" by linarith+
  then show ?thesis using q by (auto simp add: write_xfer_def inv_defs)
next
  case nu: False
  let ?frames = "xfer_frames (xfer_align pcm) (nat avail) sz"
  have fle: "?frames \<le> sz" by (rule xfer_frames_le)
  show ?thesis
  proof (cases "?frames = 0")
    case True
    then show ?thesis using nu q by (auto simp add: write_xfer_def inv_defs Let_def)
  next
    case fpos: False
    obtain r b2 where xf: "func areas offset ?frames b1 = (r, b2)" by force
    have cx: "call_xfer func areas offset ?frames (b1, t) =
                (r, (b2, t @ [Xfer offset ?frames r]))"
      by (simp add: call_xfer_def xf)
    show ?thesis
    proof (cases "c_int r < 0")
      case True
      then show ?thesis using nu fpos r0 q sz
        by (auto simp add: write_xfer_def cx inv_defs Let_def)
    next
      case en: False
      show ?thesis
      proof (cases "nat (c_int r) = ?frames")
        case False
        then show ?thesis using nu fpos en q
          by (auto simp add: write_xfer_def cx inv_defs Let_def)
      next
        case eq: True
        show ?thesis
        proof (cases "st = SND_PCM_STATE_PREPARED \<and> start_mode pcm = SND_PCM_START_DATA")
          case False
          then show ?thesis using nu fpos en eq r0 q fle sz
            by (auto simp add: write_xfer_def cx inv_defs Let_def)
        next
          case sd: True
          show ?thesis
          proof (cases "setup_flag pcm")
            case False
            then show ?thesis using nu fpos en eq sd q
              by (auto simp add: write_xfer_def cx snd_pcm_start_def inv_defs Let_def)
          next
            case su: True
            obtain e2 b3 where so: "start (fast_ops pcm) b2 = (e2, b3)" by force
            have ss: "snd_pcm_start pcm (b2, t') =
                        (Returned e2, (b3, t' @ [Call Op_start e2]))" for t'
              by (simp add: snd_pcm_start_def call_op_def su so)
            show ?thesis using nu fpos en eq sd r0 q fle sz
              by (auto simp add: write_xfer_def cx ss inv_defs Let_def)
          qed
        qed
      qed
    qed
  qed
qed

lemma write_pass_inv:
  assumes r0: "raises tr = []"
    and q: "stopping \<longrightarrow> st = SND_PCM_STATE_PREPARED \<and> quiet tr"
  shows "pass_inv pcm st stopping sz (counted tr) err
           (write_pass pcm areas func st offset sz (counted tr) err (b, tr))"
proof (cases "sz > 0")
  case False
  then show ?thesis using r0 q by (auto simp add: write_pass_def inv_defs)
next
  case sz: True
  obtain a b1 where av: "avail_update (fast_ops pcm) b = (a, b1)" by force
  have av': "snd_pcm_avail_update pcm (b, tr) = (a, (b1, tr @ [Call Op_avail_update a]))"
    by (simp add: snd_pcm_avail_update_def call_op_def av)
  let ?wb = "would_block (xfer_align pcm) sz a"
  consider (neg) "a < 0"
    | (empty) "0 \<le> a" "st = SND_PCM_STATE_PREPARED" "a = 0"
    | (block) "0 \<le> a" "st \<noteq> SND_PCM_STATE_PREPARED" "?wb"
    | (go) "0 < a" "(st = SND_PCM_STATE_PREPARED \<and> a = 0) = False"
           "(st \<noteq> SND_PCM_STATE_PREPARED \<and> ?wb) = False"
    by (cases "st = SND_PCM_STATE_PREPARED"; cases "a = 0"; cases "a < 0"; cases ?wb;
        simp add: would_block_def)
  then show ?thesis
  proof cases
    case neg
    then show ?thesis using r0 q sz by (auto simp add: write_pass_def av' inv_defs)
  next
    case empty
    then show ?thesis using r0 q sz by (auto simp add: write_pass_def av' inv_defs)
  next
    case block
    show ?thesis
    proof (cases "SND_PCM_NONBLOCK \<in> mode pcm")
      case True
      then show ?thesis using block r0 q sz by (auto simp add: write_pass_def av' inv_defs)
    next
      case nb: False
      obtain p b2 where po: "poll_fd pcm b1 = (p, b2)" by force
      obtain s' b3 where sr: "state (fast_ops pcm) b2 = (s', b3)" by force
      have wt: "snd_pcm_wait pcm (- 1) (b1, t) =
                  (if p < 0 then p else 0, (b2, t @ [Call Sys_poll p]))" for t
        by (simp add: snd_pcm_wait_def call_op_def po)
      have sq: "snd_pcm_state pcm (b2, t) = (s', (b3, t @ [State_read s']))" for t
        by (simp add: snd_pcm_state_def sr)
      show ?thesis using block nb r0 q sz
        by (auto simp add: write_pass_def av' wt sq inv_defs)
    qed
  next
    case go
    have ap: "\<not> a < 0" using go(1) by simp
    have wp: "write_pass pcm areas func st offset sz (counted tr) err (b, tr) =
              write_xfer pcm areas func st offset sz
                (counted (tr @ [Call Op_avail_update a])) a (b1, tr @ [Call Op_avail_update a])"
      using sz ap by (simp add: write_pass_def av' go(2,3))
    have q1: "stopping \<longrightarrow> st = SND_PCM_STATE_PREPARED \<and> quiet (tr @ [Call Op_avail_update a])"
      using q go(1) by (simp add: quiet_def)
    have "pass_inv pcm st stopping sz (counted (tr @ [Call Op_avail_update a])) err
            (write_xfer pcm areas func st offset sz
               (counted (tr @ [Call Op_avail_update a])) a (b1, tr @ [Call Op_avail_update a]))"
      by (rule write_xfer_inv) (use r0 sz q1 in simp_all)
    then show ?thesis unfolding wp by simp
  qed
qed


lemma read_xfer_inv:
  assumes r0: "raises t = []" and sz: "0 < sz"
    and q: "stopping \<longrightarrow> st = SND_PCM_STATE_DRAINING \<and> quiet t"
  shows "pass_inv pcm st stopping sz (counted t) err
           (read_xfer pcm areas func st offset sz (counted t) avail (b1, t))"
proof (cases "nat avail > xfer_align pcm \<and> xfer_align pcm = 0")
  case True
  then have "xfer_align pcm = 0" "0 < avail" by linarith+
  then show ?thesis using q by (auto simp add: read_xfer_def inv_defs)
next
  case nu: False
  let ?frames = "xfer_frames (xfer_align pcm) (nat avail) sz"
  have fle: "?frames \<le> sz" by (rule xfer_frames_le)
  show ?thesis
  proof (cases "?frames = 0")
    case True
    then show ?thesis using nu q by (auto simp add: read_xfer_def inv_defs Let_def)
  next
    case fpos: False
    obtain r b2 where xf: "func areas offset ?frames b1 = (r, b2)" by force
    have cx: "call_xfer func areas offset ?frames (b1, t) =
                (r, (b2, t @ [Xfer offset ?frames r]))"
      by (simp add: call_xfer_def xf)
    show ?thesis
    proof (cases "c_int r < 0")
      case True
      then show ?thesis using nu fpos r0 q sz
        by (auto simp add: read_xfer_def cx inv_defs Let_def)
    next
      case en: False
      show ?thesis
      proof (cases "nat (c_int r) = ?frames")
        case False
        then show ?thesis using nu fpos en q
          by (auto simp add: read_xfer_def cx inv_defs Let_def)
      next
        case eq: True
        then show ?thesis using nu fpos en r0 q fle sz
          by (auto simp add: read_xfer_def cx inv_defs Let_def)
      qed
    qed
  qed
qed

lemma read_pass_inv:
  assumes r0: "raises tr = []"
    and q: "stopping \<longrightarrow> st = SND_PCM_STATE_DRAINING \<and> quiet tr"
  shows "pass_inv pcm st stopping sz (counted tr) err
           (read_pass pcm areas func st offset sz (counted tr) err (b, tr))"
proof (cases "sz > 0")
  case False
  then show ?thesis using r0 q by (auto simp add: read_pass_def inv_defs)
next
  case sz: True
  obtain a b1 where av: "avail_update (fast_ops pcm) b = (a, b1)" by force
  have av': "snd_pcm_avail_update pcm (b, tr) = (a, (b1, tr @ [Call Op_avail_update a]))"
    by (simp add: snd_pcm_avail_update_def call_op_def av)
  let ?wb = "would_block (xfer_align pcm) sz a"
  consider (neg) "a < 0"
    | (empty) "0 \<le> a" "st = SND_PCM_STATE_DRAINING" "a = 0"
    | (block) "0 \<le> a" "st \<noteq> SND_PCM_STATE_DRAINING" "?wb"
    | (go) "0 < a" "(st = SND_PCM_STATE_DRAINING \<and> a = 0) = False"
           "(st \<noteq> SND_PCM_STATE_DRAINING \<and> ?wb) = False"
    by (cases "st = SND_PCM_STATE_DRAINING"; cases "a = 0"; cases "a < 0"; cases ?wb;
        simp add: would_block_def)
  then show ?thesis
  proof cases
    case neg
    then show ?thesis using r0 q sz by (auto simp add: read_pass_def av' inv_defs)
  next
    case empty
    then show ?thesis using r0 q sz by (auto simp add: read_pass_def av' inv_defs)
  next
    case block
    show ?thesis
    proof (cases "SND_PCM_NONBLOCK \<in> mode pcm")
      case True
      then show ?thesis using block r0 q sz by (auto simp add: read_pass_def av' inv_defs)
    next
      case nb: False
      obtain p b2 where po: "poll_fd pcm b1 = (p, b2)" by force
      obtain s' b3 where sr: "state (fast_ops pcm) b2 = (s', b3)" by force
      have wt: "snd_pcm_wait pcm (- 1) (b1, t) =
                  (if p < 0 then p else 0, (b2, t @ [Call Sys_poll p]))" for t
        by (simp add: snd_pcm_wait_def call_op_def po)
      have sq: "snd_pcm_state pcm (b2, t) = (s', (b3, t @ [State_read s']))" for t
        by (simp add: snd_pcm_state_def sr)
      show ?thesis using block nb r0 q sz
        by (auto simp add: read_pass_def av' wt sq inv_defs)
    qed
  next
    case go
    have ap: "\<not> a < 0" using go(1) by simp
    have wp: "read_pass pcm areas func st offset sz (counted tr) err (b, tr) =
              read_xfer pcm areas func st offset sz
                (counted (tr @ [Call Op_avail_update a])) a (b1, tr @ [Call Op_avail_update a])"
      using sz ap by (simp add: read_pass_def av' go(2,3))
    have q1: "stopping \<longrightarrow> st = SND_PCM_STATE_DRAINING \<and> quiet (tr @ [Call Op_avail_update a])"
      using q go(1) by (simp add: quiet_def)
    have "pass_inv pcm st stopping sz (counted (tr @ [Call Op_avail_update a])) err
            (read_xfer pcm areas func st offset sz
               (counted (tr @ [Call Op_avail_update a])) a (b1, tr @ [Call Op_avail_update a]))"
      by (rule read_xfer_inv) (use r0 sz q1 in simp_all)
    then show ?thesis unfolding wp by simp
  qed
qed


definition final_inv ::
  "bool \<Rightarrow> bool \<Rightarrow> int \<Rightarrow> nat \<Rightarrow> int outcome \<Rightarrow> event list \<Rightarrow> bool" where
  "final_inv stopping progress err lim out tr' \<longleftrightarrow>
     (stopping \<longrightarrow> (\<forall>p. Call Sys_poll p \<notin> set tr')) \<and>
     (case out of
        Returned r \<Rightarrow>
          ret_ok r err tr' \<and> counted tr' \<le> lim \<and>
          (progress \<longrightarrow> counted tr' > 0 \<or> raises tr' \<noteq> []) \<and>
          (stopping \<and> Call Op_avail_update 0 \<in> set tr' \<longrightarrow>
             raises tr' = [- EPIPE] \<and> ends_with tr' [Call Op_avail_update 0, Raise (- EPIPE)])
      | Aborted \<Rightarrow> stopping \<longrightarrow> Call Op_avail_update 0 \<notin> set tr'
      | Undefined \<Rightarrow> stopping \<longrightarrow> Call Op_avail_update 0 \<notin> set tr')"

lemma final_inv_err:
  "final_inv stopping True err' lim' out tr' \<Longrightarrow> lim' \<le> lim
   \<Longrightarrow> final_inv stopping progress err lim out tr'"
  by (auto simp: final_inv_def ret_ok_def split: outcome.splits list.splits)

lemma write_loop_inv:
  "write_loop fuel pcm areas func st offset sz (counted tr) err (b, tr) = Some (out, (b', tr'))
   \<Longrightarrow> raises tr = [] \<Longrightarrow> (stopping \<longrightarrow> st = SND_PCM_STATE_PREPARED \<and> quiet tr)
   \<Longrightarrow> final_inv stopping (sz > 0 \<or> counted tr > 0) err (counted tr + sz) out tr'"
proof (induction fuel arbitrary: st offset sz err b tr)
  case 0
  then show ?case by simp
next
  case (Suc fuel)
  let ?p = "write_pass pcm areas func st offset sz (counted tr) err (b, tr)"
  have inv: "pass_inv pcm st stopping sz (counted tr) err ?p"
    using Suc.prems(2,3) by (rule write_pass_inv)
  show ?case
  proof (cases ?p)
    case (Done res)
    then have "res = (out, (b', tr'))" using Suc.prems(1) by simp
    then show ?thesis using inv Done
      by (auto simp: pass_inv_def final_inv_def split: outcome.splits)
  next
    case (Again st1 offset1 sz1 xfer1 err1 w1)
    obtain b1 tr1 where w1: "w1 = (b1, tr1)" by (cases w1)
    have i1: "xfer1 = counted tr1" "raises tr1 = []" "sz1 > 0 \<or> counted tr1 > 0"
      "stopping \<longrightarrow> st1 = st \<and> quiet tr1" "counted tr1 + sz1 \<le> counted tr + sz"
      using inv Again w1 by (auto simp add: pass_inv_def)
    have run: "write_loop fuel pcm areas func st1 offset1 sz1 (counted tr1) err1 (b1, tr1)
               = Some (out, (b', tr'))"
      using Suc.prems(1) Again w1 i1(1) by simp
    have q1: "stopping \<longrightarrow> st1 = SND_PCM_STATE_PREPARED \<and> quiet tr1"
      using i1(4) Suc.prems(3) by simp
    have "final_inv stopping (sz1 > 0 \<or> counted tr1 > 0) err1 (counted tr1 + sz1) out tr'"
      using run i1(2) q1 by (rule Suc.IH)
    then have "final_inv stopping True err1 (counted tr1 + sz1) out tr'" using i1(3) by simp
    then show ?thesis using i1(5) by (rule final_inv_err)
  qed
qed

lemma write_loop_returns:
  "SND_PCM_NONBLOCK \<in> mode pcm \<or> stopping \<Longrightarrow> sz < fuel \<Longrightarrow> raises tr = []
   \<Longrightarrow> (stopping \<longrightarrow> st = SND_PCM_STATE_PREPARED \<and> quiet tr)
   \<Longrightarrow> write_loop fuel pcm areas func st offset sz (counted tr) err (b, tr) \<noteq> None"
proof (induction fuel arbitrary: st offset sz err b tr)
  case 0
  then show ?case by simp
next
  case (Suc fuel)
  let ?p = "write_pass pcm areas func st offset sz (counted tr) err (b, tr)"
  have inv: "pass_inv pcm st stopping sz (counted tr) err ?p"
    using Suc.prems(3,4) by (rule write_pass_inv)
  show ?case
  proof (cases ?p)
    case (Done res)
    then show ?thesis by simp
  next
    case (Again st1 offset1 sz1 xfer1 err1 w1)
    obtain b1 tr1 where w1: "w1 = (b1, tr1)" by (cases w1)
    have i1: "xfer1 = counted tr1" "raises tr1 = []" "sz1 < sz"
      "stopping \<longrightarrow> st1 = st \<and> quiet tr1"
      using inv Again w1 Suc.prems(1) by (auto simp add: pass_inv_def)
    have q1: "stopping \<longrightarrow> st1 = SND_PCM_STATE_PREPARED \<and> quiet tr1"
      using i1(4) Suc.prems(4) by simp
    have "sz1 < fuel" using i1(3) Suc.prems(2) by simp
    with Suc.prems(1) have
      "write_loop fuel pcm areas func st1 offset1 sz1 (counted tr1) err1 (b1, tr1) \<noteq> None"
      using i1(2) q1 by (rule Suc.IH)
    then show ?thesis using Again w1 i1(1) by simp
  qed
qed

lemma read_loop_inv:
  "read_loop fuel pcm areas func st offset sz (counted tr) err (b, tr) = Some (out, (b', tr'))
   \<Longrightarrow> raises tr = [] \<Longrightarrow> (stopping \<longrightarrow> st = SND_PCM_STATE_DRAINING \<and> quiet tr)
   \<Longrightarrow> final_inv stopping (sz > 0 \<or> counted tr > 0) err (counted tr + sz) out tr'"
proof (induction fuel arbitrary: st offset sz err b tr)
  case 0
  then show ?case by simp
next
  case (Suc fuel)
  let ?p = "read_pass pcm areas func st offset sz (counted tr) err (b, tr)"
  have inv: "pass_inv pcm st stopping sz (counted tr) err ?p"
    using Suc.prems(2,3) by (rule read_pass_inv)
  show ?case
  proof (cases ?p)
    case (Done res)
    then have "res = (out, (b', tr'))" using Suc.prems(1) by simp
    then show ?thesis using inv Done
      by (auto simp: pass_inv_def final_inv_def split: outcome.splits)
  next
    case (Again st1 offset1 sz1 xfer1 err1 w1)
    obtain b1 tr1 where w1: "w1 = (b1, tr1)" by (cases w1)
    have i1: "xfer1 = counted tr1" "raises tr1 = []" "sz1 > 0 \<or> counted tr1 > 0"
      "stopping \<longrightarrow> st1 = st \<and> quiet tr1" "counted tr1 + sz1 \<le> counted tr + sz"
      using inv Again w1 by (auto simp add: pass_inv_def)
    have run: "read_loop fuel pcm areas func st1 offset1 sz1 (counted tr1) err1 (b1, tr1)
               = Some (out, (b', tr'))"
      using Suc.prems(1) Again w1 i1(1) by simp
    have q1: "stopping \<longrightarrow> st1 = SND_PCM_STATE_DRAINING \<and> quiet tr1"
      using i1(4) Suc.prems(3) by simp
    have "final_inv stopping (sz1 > 0 \<or> counted tr1 > 0) err1 (counted tr1 + sz1) out tr'"
      using run i1(2) q1 by (rule Suc.IH)
    then have "final_inv stopping True err1 (counted tr1 + sz1) out tr'" using i1(3) by simp
    then show ?thesis using i1(5) by (rule final_inv_err)
  qed
qed

lemma read_loop_returns:
  "SND_PCM_NONBLOCK \<in> mode pcm \<or> stopping \<Longrightarrow> sz < fuel \<Longrightarrow> raises tr = []
   \<Longrightarrow> (stopping \<longrightarrow> st = SND_PCM_STATE_DRAINING \<and> quiet tr)
   \<Longrightarrow> read_loop fuel pcm areas func st offset sz (counted tr) err (b, tr) \<noteq> None"
proof (induction fuel arbitrary: st offset sz err b tr)
  case 0
  then show ?case by simp
next
  case (Suc fuel)
  let ?p = "read_pass pcm areas func st offset sz (counted tr) err (b, tr)"
  have inv: "pass_inv pcm st stopping sz (counted tr) err ?p"
    using Suc.prems(3,4) by (rule read_pass_inv)
  show ?case
  proof (cases ?p)
    case (Done res)
    then show ?thesis by simp
  next
    case (Again st1 offset1 sz1 xfer1 err1 w1)
    obtain b1 tr1 where w1: "w1 = (b1, tr1)" by (cases w1)
    have i1: "xfer1 = counted tr1" "raises tr1 = []" "sz1 < sz"
      "stopping \<longrightarrow> st1 = st \<and> quiet tr1"
      using inv Again w1 Suc.prems(1) by (auto simp add: pass_inv_def)
    have q1: "stopping \<longrightarrow> st1 = SND_PCM_STATE_DRAINING \<and> quiet tr1"
      using i1(4) Suc.prems(4) by simp
    have "sz1 < fuel" using i1(3) Suc.prems(2) by simp
    with Suc.prems(1) have
      "read_loop fuel pcm areas func st1 offset1 sz1 (counted tr1) err1 (b1, tr1) \<noteq> None"
      using i1(2) q1 by (rule Suc.IH)
    then show ?thesis using Again w1 i1(1) by simp
  qed
qed


lemma round_down_pos: "0 < (a::nat) \<Longrightarrow> a < sz \<Longrightarrow> 0 < sz - sz mod a"
proof -
  assume a: "0 < a" "a < sz"
  then have "sz mod a < a" by simp
  then show ?thesis using a by linarith
qed

lemma round_down_le: "(if sz > a then sz - sz mod a else sz) \<le> (sz::nat)"
  by simp

lemma write_areas_inv:
  assumes run: "snd_pcm_write_areas fuel pcm areas offset sz func (b, []) = Some (out, (b', tr'))"
    and stp: "stopping \<longrightarrow> fst (state (fast_ops pcm) b) = SND_PCM_STATE_PREPARED"
  shows "final_inv stopping (sz > 0) 0 sz out tr'"
proof -
  obtain st b0 where sr: "state (fast_ops pcm) b = (st, b0)" by force
  let ?t0 = "[State_read st]"
  have sq: "snd_pcm_state pcm (b, []) = (st, (b0, ?t0))" by (simp add: snd_pcm_state_def sr)
  have m0: "counted ?t0 = 0" "raises ?t0 = []" by simp_all
  have q0: "stopping \<longrightarrow> st = SND_PCM_STATE_PREPARED \<and> quiet ?t0"
    using stp sr by (simp add: quiet_def)
  show ?thesis
  proof (cases "sz = 0")
    case True
    then show ?thesis using run by (auto simp: snd_pcm_write_areas_def sq final_inv_def ret_ok_def)
  next
    case nz: False
    show ?thesis
    proof (cases "sz > xfer_align pcm \<and> xfer_align pcm = 0")
      case True
      then have "xfer_align pcm = 0" by simp
      then show ?thesis using run nz by (auto simp: snd_pcm_write_areas_def sq final_inv_def)
    next
      case nu: False
      let ?sz = "if sz > xfer_align pcm then sz - sz mod xfer_align pcm else sz"
      have sp: "0 < ?sz"
      proof (cases "sz > xfer_align pcm")
        case True
        then have "0 < xfer_align pcm" using nu by simp
        then show ?thesis using True round_down_pos[of "xfer_align pcm" sz] by simp
      next
        case False
        then show ?thesis using nz by simp
      qed
      show ?thesis
      proof (cases "st = SND_PCM_STATE_PREPARED \<or> st = SND_PCM_STATE_RUNNING")
        case True
        have "write_loop fuel pcm areas func st offset ?sz (counted ?t0) 0 (b0, ?t0)
              = Some (out, (b', tr'))"
          using run nz nu True by (simp add: snd_pcm_write_areas_def sq Let_def)
        then have "final_inv stopping (?sz > 0 \<or> counted ?t0 > 0) 0 (counted ?t0 + ?sz) out tr'"
          using m0(2) q0 by (rule write_loop_inv)
        then have "final_inv stopping True 0 (counted ?t0 + ?sz) out tr'" using sp by simp
        then show ?thesis by (rule final_inv_err) simp
      next
        case False
        then have "\<not> stopping" using q0 by auto
        then show ?thesis using run nz nu False
          by (auto simp: snd_pcm_write_areas_def sq Let_def final_inv_def ret_ok_def log_event_def
              split: if_splits)
      qed
    qed
  qed
qed

lemma read_areas_inv:
  assumes run: "snd_pcm_read_areas fuel pcm areas offset sz func (b, []) = Some (out, (b', tr'))"
    and stp: "stopping \<longrightarrow> fst (state (fast_ops pcm) b) = SND_PCM_STATE_DRAINING"
  shows "final_inv stopping (sz > 0) 0 sz out tr'"
proof -
  obtain st b0 where sr: "state (fast_ops pcm) b = (st, b0)" by force
  let ?t0 = "[State_read st]"
  have sq: "snd_pcm_state pcm (b, []) = (st, (b0, ?t0))" by (simp add: snd_pcm_state_def sr)
  have m0: "counted ?t0 = 0" "raises ?t0 = []" by simp_all
  have q0: "stopping \<longrightarrow> st = SND_PCM_STATE_DRAINING \<and> quiet ?t0"
    using stp sr by (simp add: quiet_def)
  show ?thesis
  proof (cases "sz = 0")
    case True
    then show ?thesis using run by (auto simp: snd_pcm_read_areas_def sq final_inv_def ret_ok_def)
  next
    case nz: False
    show ?thesis
    proof (cases "sz > xfer_align pcm \<and> xfer_align pcm = 0")
      case True
      then have "xfer_align pcm = 0" by simp
      then show ?thesis using run nz by (auto simp: snd_pcm_read_areas_def sq final_inv_def)
    next
      case nu: False
      let ?sz = "if sz > xfer_align pcm then sz - sz mod xfer_align pcm else sz"
      have sp: "0 < ?sz"
      proof (cases "sz > xfer_align pcm")
        case True
        then have "0 < xfer_align pcm" using nu by simp
        then show ?thesis using True round_down_pos[of "xfer_align pcm" sz] by simp
      next
        case False
        then show ?thesis using nz by simp
      qed
      consider (loop) "st = SND_PCM_STATE_DRAINING \<or> st = SND_PCM_STATE_RUNNING \<or>
                       (st = SND_PCM_STATE_PREPARED \<and> start_mode pcm \<noteq> SND_PCM_START_DATA)"
        | (start) "st = SND_PCM_STATE_PREPARED" "start_mode pcm = SND_PCM_START_DATA"
        | (bad) "st \<noteq> SND_PCM_STATE_DRAINING" "st \<noteq> SND_PCM_STATE_RUNNING"
                "st \<noteq> SND_PCM_STATE_PREPARED"
        by blast
      then show ?thesis
      proof cases
        case loop
        have "read_loop fuel pcm areas func st offset ?sz (counted ?t0) 0 (b0, ?t0)
              = Some (out, (b', tr'))"
          using run nz nu loop by (auto simp add: snd_pcm_read_areas_def sq Let_def)
        then have "final_inv stopping (?sz > 0 \<or> counted ?t0 > 0) 0 (counted ?t0 + ?sz) out tr'"
          using m0(2) q0 by (rule read_loop_inv)
        then have "final_inv stopping True 0 (counted ?t0 + ?sz) out tr'" using sp by simp
        then show ?thesis by (rule final_inv_err) simp
      next
        case start
        then have ns: "\<not> stopping" using q0 by auto
        show ?thesis
        proof (cases "setup_flag pcm")
          case False
          then show ?thesis using run nz nu start ns
            by (auto simp: snd_pcm_read_areas_def sq Let_def snd_pcm_start_def final_inv_def)
        next
          case su: True
          obtain e b1 where so: "start (fast_ops pcm) b0 = (e, b1)" by force
          let ?t1 = "?t0 @ [Call Op_start e]"
          have ss: "snd_pcm_start pcm (b0, t) = (Returned e, (b1, t @ [Call Op_start e]))" for t
            by (simp add: snd_pcm_start_def call_op_def su so)
          show ?thesis
          proof (cases "e < 0")
            case True
            then show ?thesis using run nz nu start ns
              by (auto simp: snd_pcm_read_areas_def sq ss Let_def final_inv_def ret_ok_def
                  log_event_def)
          next
            case False
            have m1: "counted ?t1 = 0" "raises ?t1 = []" by simp_all
            have rl: "read_loop fuel pcm areas func st offset ?sz (counted ?t1) e (b1, ?t1)
                  = Some (out, (b', tr'))"
              using run nz nu start False by (simp add: snd_pcm_read_areas_def sq ss Let_def)
            have q1: "stopping \<longrightarrow> st = SND_PCM_STATE_DRAINING \<and> quiet ?t1"
              using ns by simp
            have "final_inv stopping (?sz > 0 \<or> counted ?t1 > 0) e (counted ?t1 + ?sz) out tr'"
              using rl m1(2) q1 by (rule read_loop_inv)
            then have "final_inv stopping True e (counted ?t1 + ?sz) out tr'" using sp by simp
            then show ?thesis by (rule final_inv_err) simp
          qed
        qed
      next
        case bad
        then have "\<not> stopping" using q0 by auto
        then show ?thesis using run nz nu bad
          by (auto simp: snd_pcm_read_areas_def sq Let_def final_inv_def ret_ok_def log_event_def
              split: if_splits)
      qed
    qed
  qed
qed


lemma write_areas_returns:
  assumes "SND_PCM_NONBLOCK \<in> mode pcm \<or> fst (state (fast_ops pcm) b) = SND_PCM_STATE_PREPARED"
    and "sz < fuel"
  shows "snd_pcm_write_areas fuel pcm areas offset sz func (b, []) \<noteq> None"
proof -
  obtain st b0 where sr: "state (fast_ops pcm) b = (st, b0)" by force
  let ?t0 = "[State_read st]"
  let ?sz = "if sz > xfer_align pcm then sz - sz mod xfer_align pcm else sz"
  have sq: "snd_pcm_state pcm (b, []) = (st, (b0, ?t0))" by (simp add: snd_pcm_state_def sr)
  have "?sz \<le> sz" by simp
  then have lt: "?sz < fuel" using assms(2) by linarith
  have "write_loop fuel pcm areas func st offset ?sz (counted ?t0) 0 (b0, ?t0) \<noteq> None"
  proof (rule write_loop_returns[where stopping = "st = SND_PCM_STATE_PREPARED"])
    show "SND_PCM_NONBLOCK \<in> mode pcm \<or> st = SND_PCM_STATE_PREPARED" using assms(1) sr by simp
    show "?sz < fuel" by (rule lt)
    show "raises ?t0 = []" by simp
    show "st = SND_PCM_STATE_PREPARED \<longrightarrow> st = SND_PCM_STATE_PREPARED \<and> quiet ?t0"
      by (simp add: quiet_def)
  qed
  then show ?thesis by (simp add: snd_pcm_write_areas_def sq Let_def)
qed

lemma read_areas_returns:
  assumes "SND_PCM_NONBLOCK \<in> mode pcm \<or> fst (state (fast_ops pcm) b) = SND_PCM_STATE_DRAINING"
    and "sz < fuel"
  shows "snd_pcm_read_areas fuel pcm areas offset sz func (b, []) \<noteq> None"
proof -
  obtain st b0 where sr: "state (fast_ops pcm) b = (st, b0)" by force
  let ?t0 = "[State_read st]"
  let ?sz = "if sz > xfer_align pcm then sz - sz mod xfer_align pcm else sz"
  have sq: "snd_pcm_state pcm (b, []) = (st, (b0, ?t0))" by (simp add: snd_pcm_state_def sr)
  have "?sz \<le> sz" by simp
  then have lt: "?sz < fuel" using assms(2) by linarith
  have l0: "read_loop fuel pcm areas func st offset ?sz (counted ?t0) 0 (b0, ?t0) \<noteq> None"
  proof (rule read_loop_returns[where stopping = "st = SND_PCM_STATE_DRAINING"])
    show "SND_PCM_NONBLOCK \<in> mode pcm \<or> st = SND_PCM_STATE_DRAINING" using assms(1) sr by simp
    show "?sz < fuel" by (rule lt)
    show "raises ?t0 = []" by simp
    show "st = SND_PCM_STATE_DRAINING \<longrightarrow> st = SND_PCM_STATE_DRAINING \<and> quiet ?t0"
      by (simp add: quiet_def)
  qed
  show ?thesis
  proof (cases "st = SND_PCM_STATE_PREPARED \<and> start_mode pcm = SND_PCM_START_DATA
                \<and> setup_flag pcm \<and> 0 < sz \<and> \<not> (sz > xfer_align pcm \<and> xfer_align pcm = 0)")
    case False
    then show ?thesis using l0
      by (auto simp add: snd_pcm_read_areas_def sq Let_def snd_pcm_start_def)
  next
    case True
    then have nb: "SND_PCM_NONBLOCK \<in> mode pcm" using assms(1) sr by auto
    obtain e b1 where so: "start (fast_ops pcm) b0 = (e, b1)" by force
    let ?t1 = "[State_read st, Call Op_start e]"
    have ss: "snd_pcm_start pcm (b0, t) = (Returned e, (b1, t @ [Call Op_start e]))" for t
      using True by (simp add: snd_pcm_start_def call_op_def so)
    have l1: "read_loop fuel pcm areas func st offset ?sz (counted ?t1) e (b1, ?t1) \<noteq> None"
    proof (rule read_loop_returns[where stopping = False])
      show "SND_PCM_NONBLOCK \<in> mode pcm \<or> False" using nb by simp
      show "?sz < fuel" by (rule lt)
      show "raises ?t1 = []" by simp
      show "False \<longrightarrow> st = SND_PCM_STATE_DRAINING \<and> quiet ?t1" by simp
    qed
    have eq: "snd_pcm_read_areas fuel pcm areas offset sz func (b, []) =
              (if e < 0 then Some (Returned e, log_event (Raise e) (b1, ?t1))
               else read_loop fuel pcm areas func st offset ?sz 0 e (b1, ?t1))"
      using True by (auto simp add: snd_pcm_read_areas_def sq ss Let_def)
    show ?thesis unfolding eq using l1 by simp
  qed
qed


lemmas run_defs = snd_pcm_write_areas_def snd_pcm_read_areas_def write_pass_def read_pass_def
  write_xfer_def read_xfer_def xfer_frames_def would_block_def at_end_def fail_end_def
  log_event_def call_op_def call_xfer_def snd_pcm_avail_update_def snd_pcm_wait_def
  snd_pcm_state_def snd_pcm_start_def Let_def script_pcm_def script_fast_ops_def script_xfer_def
  EPIPE_def EAGAIN_def EBADFD_def c_int_def c_long_def c_ulong_def in_int_def

lemma final_ret:
  assumes "final_inv stopping (sz > 0) 0 sz (Returned r) tr" and "sz < 2 ^ 63" and "results_fit tr"
  shows "r = (if frames_moved tr > 0 then int (frames_moved tr) else first_error tr)"
    and "Raise x \<in> set tr \<Longrightarrow> r = (if frames_moved tr > 0 then int (frames_moved tr) else x)"
proof -
  have ok: "ret_ok r 0 tr" and le: "counted tr \<le> sz" using assms(1) by (simp_all add: final_inv_def)
  have cf: "counted tr = frames_moved tr" using assms(3) by (rule counted_frames_moved)
  have "int (frames_moved tr) < 2 ^ 63" using le cf assms(2) by simp
  then have cl: "c_long (int (frames_moved tr)) = int (frames_moved tr)" by (intro c_long_id) simp_all
  show "r = (if frames_moved tr > 0 then int (frames_moved tr) else first_error tr)"
    using ok by (simp add: ret_ok_def first_error_def cf cl)
  assume "Raise x \<in> set tr"
  then have "x \<in> set (raises tr)" by (simp add: Raise_in_set)
  moreover have "length (raises tr) \<le> 1" using ok by (simp add: ret_ok_def)
  ultimately have "raises tr = [x]" by (cases "raises tr") auto
  then show "r = (if frames_moved tr > 0 then int (frames_moved tr) else x)"
    using ok by (simp add: ret_ok_def cf cl)
qed

text \<open>
  Claim C1, as stated: for every call of \<^verbatim>\<open>snd_pcm_write_areas\<close> and \<^verbatim>\<open>snd_pcm_read_areas\<close>
  the return value is the total number of frames transferred when that total is
  positive. The loops keep the result of the transfer callback, a \<^verbatim>\<open>long\<close>, in the \<^verbatim>\<open>int\<close>
  \<^verbatim>\<open>err\<close> (lines 1451 and 1511, 1535 and 1588). On a stream that has room for \<open>2 ^ 31\<close>
  frames, a call of that size has the callback move all of them and report
  2147483648; stored in \<^verbatim>\<open>err\<close> this is -2147483648, the loop takes it for an error, and
  the call returns -2147483648: neither the number of frames that were transferred nor
  an error that the call met.
\<close>

theorem transfer_result_truncated:
  "snd_pcm_write_areas (Suc (Suc 0)) script_pcm [] 0 2147483648 script_xfer
      (\<lparr>reported = SND_PCM_STATE_RUNNING, avails = [2147483648]\<rparr>, []) =
     Some (Returned (- 2147483648), (\<lparr>reported = SND_PCM_STATE_RUNNING, avails = []\<rparr>,
       [State_read SND_PCM_STATE_RUNNING, Call Op_avail_update 2147483648,
        Xfer 0 2147483648 2147483648, Raise (- 2147483648)])) \<and>
   snd_pcm_read_areas (Suc (Suc 0)) script_pcm [] 0 2147483648 script_xfer
      (\<lparr>reported = SND_PCM_STATE_RUNNING, avails = [2147483648]\<rparr>, []) =
     Some (Returned (- 2147483648), (\<lparr>reported = SND_PCM_STATE_RUNNING, avails = []\<rparr>,
       [State_read SND_PCM_STATE_RUNNING, Call Op_avail_update 2147483648,
        Xfer 0 2147483648 2147483648, Raise (- 2147483648)])) \<and>
   frames_moved [State_read SND_PCM_STATE_RUNNING, Call Op_avail_update 2147483648,
        Xfer 0 2147483648 2147483648, Raise (- 2147483648)] = 2147483648"
  by (simp add: run_defs)

text \<open>
  Where the results of the callback fit an \<^verbatim>\<open>int\<close> and the size of the call fits the
  \<^verbatim>\<open>long\<close> it returns, the truncation does not show. Whenever \<^verbatim>\<open>snd_pcm_write_areas\<close> or
  \<^verbatim>\<open>snd_pcm_read_areas\<close> returns, the value is the total number of frames the callback
  moved when that total is positive, and otherwise the first error the call met (0 for
  a call of size 0, which meets none). A call that gives up with \<open>-EAGAIN\<close>, as the
  loops do in non-blocking mode where they would wait, returns the frames moved so far
  when there are some and \<open>-EAGAIN\<close> when there are none. In non-blocking mode the call
  does return: \<open>size + 1\<close> passes through the loop are enough.
\<close>

lemma transfer_return_value:
  "(sz < 2 ^ 63 \<and> results_fit tr \<longrightarrow>
      (snd_pcm_write_areas fuel pcm areas offset sz func (b, []) = Some (Returned r, (b', tr)) \<longrightarrow>
         r = (if frames_moved tr > 0 then int (frames_moved tr) else first_error tr) \<and>
         (Raise (- EAGAIN) \<in> set tr \<longrightarrow>
            r = (if frames_moved tr > 0 then int (frames_moved tr) else - EAGAIN))) \<and>
      (snd_pcm_read_areas fuel pcm areas offset sz func (b, []) = Some (Returned r, (b', tr)) \<longrightarrow>
         r = (if frames_moved tr > 0 then int (frames_moved tr) else first_error tr) \<and>
         (Raise (- EAGAIN) \<in> set tr \<longrightarrow>
            r = (if frames_moved tr > 0 then int (frames_moved tr) else - EAGAIN)))) \<and>
   (SND_PCM_NONBLOCK \<in> mode pcm \<and> sz < fuel \<longrightarrow>
      snd_pcm_write_areas fuel pcm areas offset sz func (b, []) \<noteq> None \<and>
      snd_pcm_read_areas fuel pcm areas offset sz func (b, []) \<noteq> None)"
proof (intro conjI impI)
  assume h: "sz < 2 ^ 63 \<and> results_fit tr"
  assume "snd_pcm_write_areas fuel pcm areas offset sz func (b, []) = Some (Returned r, (b', tr))"
  then have f: "final_inv False (sz > 0) 0 sz (Returned r) tr" by (rule write_areas_inv) simp
  from h have h1: "sz < 2 ^ 63" and h2: "results_fit tr" by simp_all
  show "r = (if frames_moved tr > 0 then int (frames_moved tr) else first_error tr)"
    using f h1 h2 by (rule final_ret(1))
  assume "Raise (- EAGAIN) \<in> set tr"
  with f h1 h2 show "r = (if frames_moved tr > 0 then int (frames_moved tr) else - EAGAIN)"
    by (rule final_ret(2))
next
  assume h: "sz < 2 ^ 63 \<and> results_fit tr"
  assume "snd_pcm_read_areas fuel pcm areas offset sz func (b, []) = Some (Returned r, (b', tr))"
  then have f: "final_inv False (sz > 0) 0 sz (Returned r) tr" by (rule read_areas_inv) simp
  from h have h1: "sz < 2 ^ 63" and h2: "results_fit tr" by simp_all
  show "r = (if frames_moved tr > 0 then int (frames_moved tr) else first_error tr)"
    using f h1 h2 by (rule final_ret(1))
  assume "Raise (- EAGAIN) \<in> set tr"
  with f h1 h2 show "r = (if frames_moved tr > 0 then int (frames_moved tr) else - EAGAIN)"
    by (rule final_ret(2))
next
  assume a: "SND_PCM_NONBLOCK \<in> mode pcm \<and> sz < fuel"
  then show "snd_pcm_write_areas fuel pcm areas offset sz func (b, []) \<noteq> None"
    by (intro write_areas_returns) simp_all
  from a show "snd_pcm_read_areas fuel pcm areas offset sz func (b, []) \<noteq> None"
    by (intro read_areas_returns) simp_all
qed

lemma final_stop:
  assumes "final_inv True progress 0 sz out tr"
  shows "(\<forall>p. Call Sys_poll p \<notin> set tr) \<and>
         (Call Op_avail_update 0 \<in> set tr \<longrightarrow>
            ends_with tr [Call Op_avail_update 0, Raise (- EPIPE)]) \<and>
         (Call Op_avail_update 0 \<in> set tr \<and> sz < 2 ^ 63 \<and> results_fit tr \<longrightarrow>
            out = Returned (if frames_moved tr > 0 then int (frames_moved tr) else - EPIPE) \<and>
            out \<noteq> Returned (- EAGAIN))"
proof (intro conjI impI)
  show "\<forall>p. Call Sys_poll p \<notin> set tr" using assms by (simp add: final_inv_def)
next
  assume h: "Call Op_avail_update 0 \<in> set tr"
  show "ends_with tr [Call Op_avail_update 0, Raise (- EPIPE)]"
    using assms h by (cases out) (auto simp add: final_inv_def)
next
  assume h: "Call Op_avail_update 0 \<in> set tr \<and> sz < 2 ^ 63 \<and> results_fit tr"
  have cf: "counted tr = frames_moved tr" using h by (intro counted_frames_moved) simp
  obtain r where out: "out = Returned r" and ok: "ret_ok r 0 tr" and le: "counted tr \<le> sz"
    and rs: "raises tr = [- EPIPE]"
    using assms h by (cases out) (auto simp add: final_inv_def)
  have "int (frames_moved tr) < 2 ^ 63" using le cf h by simp
  then have cl: "c_long (int (frames_moved tr)) = int (frames_moved tr)" by (intro c_long_id) simp_all
  have r: "r = (if frames_moved tr > 0 then int (frames_moved tr) else - EPIPE)"
    using ok rs by (simp add: ret_ok_def cf cl)
  show "out = Returned (if frames_moved tr > 0 then int (frames_moved tr) else - EPIPE)"
    using out r by simp
  show "out \<noteq> Returned (- EAGAIN)" using out r by (simp add: EPIPE_def EAGAIN_def)
qed

text \<open>
  Claim C2, as stated: a read in state DRAINING returns the Xrun error once
  \<open>avail_update\<close> answers 0. It fails for a read that has moved frames before: with 4
  frames in the ring a read of 8 frames in state DRAINING moves the 4, finds the ring
  empty, and returns 4.
\<close>

theorem empty_ring_is_xrun_counterexample:
  "snd_pcm_read_areas (Suc (Suc (Suc 0))) script_pcm [] 0 8 script_xfer
      (\<lparr>reported = SND_PCM_STATE_DRAINING, avails = [4, 0]\<rparr>, []) =
     Some (Returned 4, (\<lparr>reported = SND_PCM_STATE_DRAINING, avails = []\<rparr>,
       [State_read SND_PCM_STATE_DRAINING, Call Op_avail_update 4, Xfer 0 4 4,
        Call Op_avail_update 0, Raise (- EPIPE)])) \<and>
   Returned 4 \<noteq> Returned (- EPIPE)"
  by (simp add: run_defs)

text \<open>
  Claim C2, amended: a write entered in state PREPARED and a read entered in state
  DRAINING never wait (no call of \<^verbatim>\<open>poll\<close>) and so return within \<open>size + 1\<close> passes. An
  answer 0 of \<open>avail_update\<close> ends the call: the loop sets the Xrun error \<open>-EPIPE\<close> and
  calls nothing after it (the log ends with the answer and the error). The call then
  returns \<open>-EPIPE\<close> if no frame has been moved and the number of frames moved
  otherwise, and never \<open>-EAGAIN\<close> (for a size that fits the \<^verbatim>\<open>long\<close> the call returns and
  results of the callback that fit the \<^verbatim>\<open>int\<close> the loop keeps them in).
\<close>

theorem empty_ring_is_xrun:
  "(fst (state (fast_ops pcm) b) = SND_PCM_STATE_PREPARED \<longrightarrow>
      (sz < fuel \<longrightarrow> snd_pcm_write_areas fuel pcm areas offset sz func (b, []) \<noteq> None) \<and>
      (snd_pcm_write_areas fuel pcm areas offset sz func (b, []) = Some (out, (b', tr)) \<longrightarrow>
         (\<forall>p. Call Sys_poll p \<notin> set tr) \<and>
         (Call Op_avail_update 0 \<in> set tr \<longrightarrow>
            ends_with tr [Call Op_avail_update 0, Raise (- EPIPE)]) \<and>
         (Call Op_avail_update 0 \<in> set tr \<and> sz < 2 ^ 63 \<and> results_fit tr \<longrightarrow>
            out = Returned (if frames_moved tr > 0 then int (frames_moved tr) else - EPIPE) \<and>
            out \<noteq> Returned (- EAGAIN)))) \<and>
   (fst (state (fast_ops pcm) b) = SND_PCM_STATE_DRAINING \<longrightarrow>
      (sz < fuel \<longrightarrow> snd_pcm_read_areas fuel pcm areas offset sz func (b, []) \<noteq> None) \<and>
      (snd_pcm_read_areas fuel pcm areas offset sz func (b, []) = Some (out, (b', tr)) \<longrightarrow>
         (\<forall>p. Call Sys_poll p \<notin> set tr) \<and>
         (Call Op_avail_update 0 \<in> set tr \<longrightarrow>
            ends_with tr [Call Op_avail_update 0, Raise (- EPIPE)]) \<and>
         (Call Op_avail_update 0 \<in> set tr \<and> sz < 2 ^ 63 \<and> results_fit tr \<longrightarrow>
            out = Returned (if frames_moved tr > 0 then int (frames_moved tr) else - EPIPE) \<and>
            out \<noteq> Returned (- EAGAIN))))"
proof -
  let ?concl = "(\<forall>p. Call Sys_poll p \<notin> set tr) \<and>
         (Call Op_avail_update 0 \<in> set tr \<longrightarrow>
            ends_with tr [Call Op_avail_update 0, Raise (- EPIPE)]) \<and>
         (Call Op_avail_update 0 \<in> set tr \<and> sz < 2 ^ 63 \<and> results_fit tr \<longrightarrow>
            out = Returned (if frames_moved tr > 0 then int (frames_moved tr) else - EPIPE) \<and>
            out \<noteq> Returned (- EAGAIN))"
  have W1: "snd_pcm_write_areas fuel pcm areas offset sz func (b, []) \<noteq> None"
    if "fst (state (fast_ops pcm) b) = SND_PCM_STATE_PREPARED" "sz < fuel"
    using that by (intro write_areas_returns) simp_all
  have R1: "snd_pcm_read_areas fuel pcm areas offset sz func (b, []) \<noteq> None"
    if "fst (state (fast_ops pcm) b) = SND_PCM_STATE_DRAINING" "sz < fuel"
    using that by (intro read_areas_returns) simp_all
  have W2: ?concl
    if "fst (state (fast_ops pcm) b) = SND_PCM_STATE_PREPARED"
      "snd_pcm_write_areas fuel pcm areas offset sz func (b, []) = Some (out, (b', tr))"
  proof -
    have "final_inv True (sz > 0) 0 sz out tr" using that(2,1) by (intro write_areas_inv) simp_all
    then show ?thesis by (rule final_stop)
  qed
  have R2: ?concl
    if "fst (state (fast_ops pcm) b) = SND_PCM_STATE_DRAINING"
      "snd_pcm_read_areas fuel pcm areas offset sz func (b, []) = Some (out, (b', tr))"
  proof -
    have "final_inv True (sz > 0) 0 sz out tr" using that(2,1) by (intro read_areas_inv) simp_all
    then show ?thesis by (rule final_stop)
  qed
  show ?thesis using W1 W2 R1 R2 by blast
qed

theorem empty_ring_is_xrun_witness:
  "fst (state (fast_ops script_pcm) \<lparr>reported = SND_PCM_STATE_PREPARED, avails = [0]\<rparr>) =
     SND_PCM_STATE_PREPARED \<and>
   snd_pcm_write_areas (Suc (Suc (Suc 0))) script_pcm [] 0 8 script_xfer
      (\<lparr>reported = SND_PCM_STATE_PREPARED, avails = [0]\<rparr>, []) =
     Some (Returned (- EPIPE), (\<lparr>reported = SND_PCM_STATE_PREPARED, avails = []\<rparr>,
       [State_read SND_PCM_STATE_PREPARED, Call Op_avail_update 0, Raise (- EPIPE)])) \<and>
   Call Op_avail_update 0 \<in>
     set [State_read SND_PCM_STATE_PREPARED, Call Op_avail_update 0, Raise (- EPIPE)] \<and>
   results_fit [State_read SND_PCM_STATE_PREPARED, Call Op_avail_update 0, Raise (- EPIPE)] \<and>
   fst (state (fast_ops script_pcm) \<lparr>reported = SND_PCM_STATE_DRAINING, avails = [4, 0]\<rparr>) =
     SND_PCM_STATE_DRAINING \<and>
   snd_pcm_read_areas (Suc (Suc (Suc 0))) script_pcm [] 0 8 script_xfer
      (\<lparr>reported = SND_PCM_STATE_DRAINING, avails = [4, 0]\<rparr>, []) =
     Some (Returned 4, (\<lparr>reported = SND_PCM_STATE_DRAINING, avails = []\<rparr>,
       [State_read SND_PCM_STATE_DRAINING, Call Op_avail_update 4, Xfer 0 4 4,
        Call Op_avail_update 0, Raise (- EPIPE)])) \<and>
   frames_moved [State_read SND_PCM_STATE_DRAINING, Call Op_avail_update 4, Xfer 0 4 4,
        Call Op_avail_update 0, Raise (- EPIPE)] = 4 \<and>
   results_fit [State_read SND_PCM_STATE_DRAINING, Call Op_avail_update 4, Xfer 0 4 4,
        Call Op_avail_update 0, Raise (- EPIPE)]"
  using empty_ring_is_xrun
    [of script_pcm "\<lparr>reported = SND_PCM_STATE_PREPARED, avails = [0]\<rparr>" 8 "Suc (Suc (Suc 0))" "[]" 0 script_xfer
      "Returned (- EPIPE)" "\<lparr>reported = SND_PCM_STATE_PREPARED, avails = []\<rparr>"
      "[State_read SND_PCM_STATE_PREPARED, Call Op_avail_update 0, Raise (- EPIPE)]"]
    empty_ring_is_xrun
    [of script_pcm "\<lparr>reported = SND_PCM_STATE_DRAINING, avails = [4, 0]\<rparr>" 8 "Suc (Suc (Suc 0))" "[]" 0 script_xfer
      "Returned 4" "\<lparr>reported = SND_PCM_STATE_DRAINING, avails = []\<rparr>"
      "[State_read SND_PCM_STATE_DRAINING, Call Op_avail_update 4, Xfer 0 4 4,
        Call Op_avail_update 0, Raise (- EPIPE)]"]
  by (simp add: run_defs ends_with_def)

lemma round_down_ge: "0 < (a::nat) \<Longrightarrow> a < v \<Longrightarrow> a \<le> v - v mod a"
proof -
  assume a: "0 < a" "a < v"
  have "v = (v div a) * a + v mod a" by simp
  moreover have "a div a \<le> v div a" using a by (intro div_le_mono) simp
  then have "1 \<le> v div a" using a by simp
  then have "a \<le> (v div a) * a" by simp
  ultimately show ?thesis by linarith
qed

lemma xfer_frames_small:
  assumes "0 < align" "n \<le> align" "align \<le> avail"
  shows "xfer_frames align avail n = n"
proof -
  have "align \<le> (if avail > align then avail - avail mod align else avail)"
    using assms round_down_ge[of align avail] by simp
  then show ?thesis using assms(2) by (simp add: xfer_frames_def Let_def)
qed

text \<open>
  Claim C3, as stated: a write of \<open>xfer_align - 1\<close> frames on a ring with room for
  \<open>xfer_align\<close> transfers nothing and returns 0. The size is rounded down only when it
  is larger than \<open>xfer_align\<close> (line 1540): with \<open>xfer_align = 4\<close> and room for 8 frames a
  write of 3 frames hands the 3 frames to the callback and returns 3.
\<close>

theorem write_at_alignment_counterexample:
  "snd_pcm_write_areas (Suc (Suc 0)) script_pcm [] 0 3 script_xfer
      (\<lparr>reported = SND_PCM_STATE_RUNNING, avails = [8]\<rparr>, []) =
     Some (Returned 3, (\<lparr>reported = SND_PCM_STATE_RUNNING, avails = []\<rparr>,
       [State_read SND_PCM_STATE_RUNNING, Call Op_avail_update 8, Xfer 0 3 3])) \<and>
   xfer_align script_pcm = 4 \<and> stream script_pcm = SND_PCM_STREAM_PLAYBACK"
  by (simp add: run_defs)

text \<open>
  Claim C3, amended: on an endpoint in state PREPARED or RUNNING with
  \<open>1 < xfer_align < 2 ^ 31\<close> whose ring has room for at least \<open>xfer_align\<close> frames, a write
  of \<open>n\<close> frames, \<open>n\<close> being \<open>xfer_align - 1\<close> or \<open>xfer_align\<close>, is not rounded: it asks
  \<open>avail_update\<close> once, hands the callback exactly \<open>n\<close> frames at the offset of the call
  in one transfer and, the callback moving them, returns \<open>n\<close>. Nothing else happens but
  the start of a prepared stream in start mode DATA, after the transfer; the result is
  \<open>n\<close> whatever the start returns. The theorem gives the backend and the log the call
  leaves, from the results of the backend's functions.
\<close>

theorem write_at_alignment:
  assumes al: "1 < xfer_align pcm" "xfer_align pcm < 2 ^ 31" and su: "setup_flag pcm"
    and sr: "state (fast_ops pcm) b = (st, b0)"
    and ok: "st = SND_PCM_STATE_PREPARED \<or> st = SND_PCM_STATE_RUNNING"
    and av: "avail_update (fast_ops pcm) b0 = (a, b1)" and ge: "int (xfer_align pcm) \<le> a"
    and n: "n = xfer_align pcm - 1 \<or> n = xfer_align pcm"
    and xf: "func areas offset n b1 = (int n, b2)"
    and so: "start (fast_ops pcm) b2 = (e, b3)"
    and fu: "2 \<le> fuel"
  shows "snd_pcm_write_areas fuel pcm areas offset n func (b, []) =
           Some (Returned (int n),
             (if st = SND_PCM_STATE_PREPARED \<and> start_mode pcm = SND_PCM_START_DATA
              then (b3, [State_read st, Call Op_avail_update a, Xfer offset n (int n),
                         Call Op_start e] @ (if e < 0 then [Raise e] else []))
              else (b2, [State_read st, Call Op_avail_update a, Xfer offset n (int n)])))"
proof -
  obtain k where fuel: "fuel = Suc (Suc k)" using fu by (metis Suc_le_D numeral_2_eq_2 Suc_le_mono)
  have npos: "0 < n" and nle: "n \<le> xfer_align pcm" using al n by auto
  have nin: "in_int (int n)" using nle al(2) by (simp add: in_int_def)
  have ci: "c_int (int n) = int n" using nin by (rule c_int_id)
  have "int n < 2 ^ 63"
  proof -
    have "int n < 2 ^ 31" using nle al(2) by simp
    also have "(2::int) ^ 31 < 2 ^ 63" by simp
    finally show ?thesis .
  qed
  then have cl: "c_long (int n) = int n" by (intro c_long_id) simp_all
  have apos: "0 < a" "\<not> a < 0" "a \<noteq> 0" "xfer_align pcm \<le> nat a" using al ge by auto
  have nwb: "\<not> would_block (xfer_align pcm) n a" using apos by (simp add: would_block_def)
  have fr: "xfer_frames (xfer_align pcm) (nat a) n = n"
    using al nle apos(4) by (intro xfer_frames_small) simp_all
  let ?t0 = "[State_read st]"
  let ?t1 = "[State_read st, Call Op_avail_update a]"
  let ?t2 = "[State_read st, Call Op_avail_update a, Xfer offset n (int n)]"
  have sq: "snd_pcm_state pcm (b, []) = (st, (b0, ?t0))" by (simp add: snd_pcm_state_def sr)
  have av': "snd_pcm_avail_update pcm (b0, ?t0) = (a, (b1, ?t1))"
    by (simp add: snd_pcm_avail_update_def call_op_def av)
  have cx: "call_xfer func areas offset n (b1, t) = (int n, (b2, t @ [Xfer offset n (int n)]))"
    for t by (simp add: call_xfer_def xf)
  have top: "snd_pcm_write_areas fuel pcm areas offset n func (b, []) =
             write_loop fuel pcm areas func st offset n 0 0 (b0, ?t0)"
    using npos nle ok al by (auto simp add: snd_pcm_write_areas_def sq Let_def)
  have gate: "write_pass pcm areas func st offset n 0 0 (b0, ?t0) =
              write_xfer pcm areas func st offset n 0 a (b1, ?t1)"
    using npos apos nwb by (simp add: write_pass_def av')
  have last: "write_pass pcm areas func st o' 0 n e' w = Done (Returned (int n), w)" for o' e' w
    using npos by (simp add: write_pass_def at_end_def cl)
  show ?thesis
  proof (cases "st = SND_PCM_STATE_PREPARED \<and> start_mode pcm = SND_PCM_START_DATA")
    case False
    have "write_xfer pcm areas func st offset n 0 a (b1, ?t1) =
          Again st (c_ulong (offset + n)) 0 n (int n) (b2, ?t2)"
      using False npos al by (auto simp add: write_xfer_def fr cx ci Let_def)
    then have "snd_pcm_write_areas fuel pcm areas offset n func (b, []) =
               Some (Returned (int n), (b2, ?t2))"
      by (simp add: top[unfolded fuel] fuel gate last)
    then show ?thesis using False by simp
  next
    case True
    have ss: "snd_pcm_start pcm (b2, t) = (Returned e, (b3, t @ [Call Op_start e]))" for t
      by (simp add: snd_pcm_start_def call_op_def su so)
    show ?thesis
    proof (cases "e < 0")
      case neg: True
      have "write_xfer pcm areas func st offset n 0 a (b1, ?t1) =
            Done (Returned (int n), (b3, ?t2 @ [Call Op_start e, Raise e]))"
        using True neg npos al
        by (auto simp add: write_xfer_def fr cx ci cl ss Let_def fail_end_def at_end_def
            log_event_def)
      then have "snd_pcm_write_areas fuel pcm areas offset n func (b, []) =
                 Some (Returned (int n), (b3, ?t2 @ [Call Op_start e, Raise e]))"
        by (simp add: top[unfolded fuel] fuel gate)
      then show ?thesis using True neg by simp
    next
      case pos: False
      have "write_xfer pcm areas func st offset n 0 a (b1, ?t1) =
            Again st (c_ulong (offset + n)) 0 n e (b3, ?t2 @ [Call Op_start e])"
        using True pos npos al by (auto simp add: write_xfer_def fr cx ci ss Let_def)
      then have "snd_pcm_write_areas fuel pcm areas offset n func (b, []) =
                 Some (Returned (int n), (b3, ?t2 @ [Call Op_start e]))"
        by (simp add: top[unfolded fuel] fuel gate last)
      then show ?thesis using True pos by simp
    qed
  qed
qed

theorem write_at_alignment_witness:
  "1 < xfer_align script_pcm \<and> xfer_align script_pcm < 2 ^ 31 \<and> setup_flag script_pcm \<and>
   state (fast_ops script_pcm) \<lparr>reported = SND_PCM_STATE_PREPARED, avails = [8]\<rparr> =
     (SND_PCM_STATE_PREPARED, \<lparr>reported = SND_PCM_STATE_PREPARED, avails = [8]\<rparr>) \<and>
   avail_update (fast_ops script_pcm) \<lparr>reported = SND_PCM_STATE_PREPARED, avails = [8]\<rparr> =
     (8, \<lparr>reported = SND_PCM_STATE_PREPARED, avails = []\<rparr>) \<and>
   int (xfer_align script_pcm) \<le> 8 \<and> (4::nat) = xfer_align script_pcm \<and>
   script_xfer [] 0 4 \<lparr>reported = SND_PCM_STATE_PREPARED, avails = []\<rparr> =
     (int 4, \<lparr>reported = SND_PCM_STATE_PREPARED, avails = []\<rparr>) \<and>
   start (fast_ops script_pcm) \<lparr>reported = SND_PCM_STATE_PREPARED, avails = []\<rparr> =
     (0, \<lparr>reported = SND_PCM_STATE_RUNNING, avails = []\<rparr>) \<and>
   snd_pcm_write_areas 2 script_pcm [] 0 4 script_xfer
      (\<lparr>reported = SND_PCM_STATE_PREPARED, avails = [8]\<rparr>, []) =
     Some (Returned 4, (\<lparr>reported = SND_PCM_STATE_RUNNING, avails = []\<rparr>,
       [State_read SND_PCM_STATE_PREPARED, Call Op_avail_update 8, Xfer 0 4 4, Call Op_start 0]))"
  using write_at_alignment
    [of script_pcm "\<lparr>reported = SND_PCM_STATE_PREPARED, avails = [8]\<rparr>" SND_PCM_STATE_PREPARED
      "\<lparr>reported = SND_PCM_STATE_PREPARED, avails = [8]\<rparr>" 8
      "\<lparr>reported = SND_PCM_STATE_PREPARED, avails = []\<rparr>" 4 script_xfer "[]" 0
      "\<lparr>reported = SND_PCM_STATE_PREPARED, avails = []\<rparr>" 0
      "\<lparr>reported = SND_PCM_STATE_RUNNING, avails = []\<rparr>" 2]
  by (simp add: script_pcm_def script_fast_ops_def script_xfer_def)

section \<open>The channel-area engine\<close>

text \<open>
  What a call leaves at some addresses: its error code and the bytes, when it returns.
\<close>

definition result_bytes :: "(int \<times> memory) outcome \<Rightarrow> nat list \<Rightarrow> (int \<times> 8 word list) option" where
  "result_bytes r as = (case r of Returned (err, m) \<Rightarrow> Some (err, map m as) | _ \<Rightarrow> None)"

lemma low_nibble_mask: "(15 :: 8 word) = mask 4"
  by (simp add: mask_eq_exp_minus_1)

lemma high_nibble_mask: "(240 :: 8 word) = NOT (mask 4)"
  by (simp add: mask_eq_exp_minus_1 not_eq_complement)

lemma nibbles_join:
  "(((x AND 240) OR (s AND 15)) AND 15 OR (s AND 240)) = (s :: 8 word)"
  "(((x AND 15) OR (s AND 240)) AND 240) OR (s AND 15) = (s :: 8 word)"
  unfolding low_nibble_mask high_nibble_mask
  by (rule bit_word_eqI; auto simp add: bit_simps)+

text \<open>
  Claim C7, as stated: on the area \<open>(base, first = 4, step = 4)\<close> of a format of width 4,
  \<^verbatim>\<open>snd_pcm_area_silence\<close> with 3 samples leaves the low nibble of byte 0 as it was and
  sets its high nibble to the silence pattern. The code does the opposite. With every
  byte \<^verbatim>\<open>0xff\<close> before the call and the silence pattern 0, the claim gives \<^verbatim>\<open>0x0f\<close> for byte
  0; the call leaves \<^verbatim>\<open>0xf0\<close>: the low nibble is set to the pattern and the high nibble is
  as it was.
\<close>

theorem area_silence_nibbles_counterexample:
  "result_bytes
     (snd_pcm_area_silence Little_endian \<lparr>addr = 16, first = 4, step = 4\<rparr> 0 3
        \<lparr>physical_width = 4, silence_64 = 0\<rparr> (\<lambda>x. 0xff))
     [16, 17, 18] = Some (0, [0xf0, 0x00, 0xff]) \<and>
   (0xf0 :: 8 word) AND 0x0f \<noteq> 0xff AND 0x0f \<and> (0xf0 :: 8 word) AND 0xf0 \<noteq> 0 AND 0xf0"
  by (simp add: result_bytes_def snd_pcm_area_silence_def silence_tail_def
      snd_pcm_channel_area_addr_def c_uint_def u32_def Let_def silence_dwords.simps
      silence_nibbles.simps)

text \<open>
  Claim C7, amended: for a format of width 4 and the destination area
  \<open>(base, first = 4, step = 4)\<close>, \<open>base\<close> not null, \<^verbatim>\<open>snd_pcm_area_silence\<close> at offset 0 with 3
  samples returns 0 and leaves byte 0 with its high nibble (the bits of \<^verbatim>\<open>0xf0\<close>) as it
  was and its low nibble (the bits of \<^verbatim>\<open>0x0f\<close>) set to that of the silence pattern; both
  nibbles of byte 1 are those of the silence pattern; no other byte changes. In the
  code the nibble at bit offset 4 is the low one, and the nibble at bit offset 0 the
  high one.
\<close>

theorem area_silence_nibbles:
  assumes "base \<noteq> 0" and "physical_width fmt = 4"
  shows "snd_pcm_area_silence bo \<lparr>addr = base, first = 4, step = 4\<rparr> 0 3 fmt m =
           Returned (0, m(base := (m base AND 0xf0) OR (ucast (silence_64 fmt) AND 0x0f),
                          Suc base := ucast (silence_64 fmt)))"
  using assms
  by (simp add: snd_pcm_area_silence_def silence_tail_def snd_pcm_channel_area_addr_def
      c_uint_def u32_def Let_def silence_dwords.simps silence_nibbles.simps nibbles_join)

theorem area_silence_nibbles_witness:
  "(16 :: nat) \<noteq> 0 \<and> physical_width \<lparr>physical_width = 4, silence_64 = 0x88\<rparr> = 4 \<and>
   snd_pcm_area_silence Big_endian \<lparr>addr = 16, first = 4, step = 4\<rparr> 0 3
      \<lparr>physical_width = 4, silence_64 = 0x88\<rparr> (\<lambda>x. 0x35) =
     Returned (0, (\<lambda>x. 0x35)(16 := 0x38, 17 := 0x88))"
  using area_silence_nibbles
    [of 16 "\<lparr>physical_width = 4, silence_64 = 0x88\<rparr>" Big_endian "\<lambda>x. 0x35"]
  by simp

text \<open>
  Claim C4 compares the collapsed call of \<^verbatim>\<open>snd_pcm_areas_copy\<close> with what the
  specification calls the per-channel path: \<^verbatim>\<open>snd_pcm_area_copy\<close> once for every channel,
  from left to right, each on the memory the one before left.
\<close>

fun per_channel_copy ::
  "byte_order \<Rightarrow> snd_pcm_channel_area_t list \<Rightarrow> nat \<Rightarrow> snd_pcm_channel_area_t list \<Rightarrow> nat \<Rightarrow>
   nat \<Rightarrow> format_info \<Rightarrow> memory \<Rightarrow> (int \<times> memory) outcome" where
  "per_channel_copy bo (d # dst_areas) dst_offset (s # src_areas) src_offset frames fmt m =
     (case snd_pcm_area_copy bo d dst_offset s src_offset (u32 frames) fmt m of
        Returned (err, m') \<Rightarrow>
          per_channel_copy bo dst_areas dst_offset src_areas src_offset frames fmt m'
      | Aborted \<Rightarrow> Aborted
      | Undefined \<Rightarrow> Undefined)"
| "per_channel_copy bo dst_areas dst_offset src_areas src_offset frames fmt m = Returned (0, m)"

text \<open>
  Claim C4: the collapsed call gives the bytes the per-channel calls give. It does not
  for three channels of 4 bits that follow one another in frames of 12 bits, copied
  for one frame from the bytes \<^verbatim>\<open>0x12 0x34\<close> at address 100 to address 200, where the bytes
  are 0. Channel by channel the three nibbles arrive: \<^verbatim>\<open>0x12 0x30\<close>. The run collapses
  into one call of 3 samples; there \<^verbatim>\<open>memcpy\<close> copies the one whole byte, and the loop of
  the width copies the sample that is left from where \<^verbatim>\<open>src\<close> and \<^verbatim>\<open>dst\<close> still are, the
  first nibble again: \<^verbatim>\<open>0x12 0x00\<close>. The third nibble is never copied.
\<close>

theorem areas_copy_collapsed_nibbles:
  "result_bytes
     (snd_pcm_areas_copy Little_endian
        [\<lparr>addr = 200, first = 0, step = 12\<rparr>, \<lparr>addr = 200, first = 4, step = 12\<rparr>,
         \<lparr>addr = 200, first = 8, step = 12\<rparr>] 0
        [\<lparr>addr = 100, first = 0, step = 12\<rparr>, \<lparr>addr = 100, first = 4, step = 12\<rparr>,
         \<lparr>addr = 100, first = 8, step = 12\<rparr>] 0
        3 1 \<lparr>physical_width = 4, silence_64 = 0\<rparr> ((\<lambda>x. 0)(100 := 0x12, 101 := 0x34)))
     [200, 201] = Some (0, [0x12, 0x00]) \<and>
   result_bytes
     (per_channel_copy Little_endian
        [\<lparr>addr = 200, first = 0, step = 12\<rparr>, \<lparr>addr = 200, first = 4, step = 12\<rparr>,
         \<lparr>addr = 200, first = 8, step = 12\<rparr>] 0
        [\<lparr>addr = 100, first = 0, step = 12\<rparr>, \<lparr>addr = 100, first = 4, step = 12\<rparr>,
         \<lparr>addr = 100, first = 8, step = 12\<rparr>] 0
        1 \<lparr>physical_width = 4, silence_64 = 0\<rparr> ((\<lambda>x. 0)(100 := 0x12, 101 := 0x34)))
     [200, 201] = Some (0, [0x12, 0x30])"
  by (simp add: result_bytes_def snd_pcm_areas_copy_def areas_copy_loop.simps copy_round_def
      copy_run.simps snd_pcm_area_copy_def copy_tail_def copy_nibbles.simps copy_bytes_def
      snd_pcm_channel_area_addr_def c_uint_def c_ulong_def u32_def Let_def)

end
